theory Spec2Isabelle
  imports Main "HOL-Library.Sublist"
begin

section \<open>The typescript cleanup pass of tedium (src/cleanup-passes/typescript.ts)\<close>

text \<open>
  The pass is a straight sequence of calls to the outside world (file system, child
  processes, the git working tree) with a few conditionals in between. The embedding keeps
  that shape:
  \<^item> every call to the outside is recorded, in program order, as an \<open>event\<close> in the
    \<open>trace\<close> of the state;
  \<^item> what the outside answers to each call is a field of the record \<open>env\<close>; a theorem
    for every \<open>env\<close> is a theorem about every run of the pass;
  \<^item> a thrown exception or a rejected promise is a value \<open>Inl e\<close>, and each later step is
    run only on \<open>Inr\<close>;
  \<^item> the module variable \<open>latestGeneratorVersion\<close> is a field of the state.
  JavaScript strings are modelled as \<open>string\<close>; \<open>s.includes(t)\<close> is \<open>sublist t s\<close> and
  \<open>s.endsWith(t)\<close> is \<open>suffix t s\<close>.
\<close>

subsection \<open>Data\<close>

text \<open>
  Modelled from the spec: the declaration of \<open>NpmConfig\<close>, the type the pass gives the
  parsed package.json, is not in the source file. The spec's manifest record is a mapping of
  dependency name to version range and a mapping of script name to command string; the pass
  tests both against \<open>undefined\<close> and stores strings under string keys, so both fields are
  optional objects from names to strings. The other fields of a manifest are never touched
  and live in the record's extension. JSON values outside this type are outside the model.
\<close>

record NpmConfig =
  devDependencies :: "(string \<rightharpoonup> string) option"
  scripts :: "(string \<rightharpoonup> string) option"

text \<open>
  The type the pass casts the loaded YAML document to, \<open>{before_script?: string[]}\<close>
  (lines 104-106). A list is never falsy, so the test \<open>!travisYaml.before_script\<close> of line
  107 is the test for \<open>undefined\<close>. Documents outside this type are outside the model.
\<close>

record TravisYaml =
  before_script :: "string list option"

text \<open>
  Modelled from the spec: the declaration of \<open>ElementRepo\<close> is not in the source file. The
  pass reads the repository directory \<open>element.dir\<close> and the repository name
  \<open>element.ghRepo.name\<close>; the working tree behind \<open>element.repo\<close> is part of the outside.
\<close>

record ElementRepo =
  dir :: string
  ghRepo_name :: string

text \<open>\<open>path.join(element.dir, name)\<close>, kept symbolic.\<close>

datatype path = Join string string

datatype error =
    Error string      \<comment> \<open>\<open>throw new Error(msg)\<close> in this file\<close>
  | Rejected string   \<comment> \<open>a failure of an outside call, propagated as it is\<close>
  | Thrown string     \<comment> \<open>an exception thrown by \<open>semver.satisfies\<close>, propagated as it is\<close>
  | UndefinedAccess   \<comment> \<open>the \<open>TypeError\<close> of a property access on \<open>undefined\<close>\<close>

datatype event =
    ReadJson path
  | WriteJson path NpmConfig
  | PathExists path
  | ReadFile path
  | WriteFile path TravisYaml          \<comment> \<open>the document given to \<open>yaml.safeDump\<close>\<close>
  | Remove path
  | ExecFile string "string list" "string option"   \<comment> \<open>command, arguments, \<open>cwd\<close>\<close>
  | GetStatus
  | MakeCommit "string list" string    \<comment> \<open>files, message\<close>
  | ConsoleLog string

text \<open>
  The answers of the outside world during one run. \<open>None\<close> in a field of type
  \<open>string option\<close> means the call succeeded; \<open>Some msg\<close> and \<open>Inl msg\<close> mean it failed
  (a non-zero exit or spawn failure for a child process, an I/O or parse failure for a file).
  \<open>fse.pathExists\<close> does not fail. \<open>semver.satisfies\<close> is a library function; it
  returns a boolean or throws (semver 5.x throws a \<open>TypeError\<close> on a version string it
  does not accept, such as one with a leading zero, which the pattern of the resolver lets
  through). \<open>makeCommit\<close> is imported from \<open>./util\<close>, which is not
  in the source file; modelled from the spec, it creates a commit from a file list and a
  message, which here is the event \<open>MakeCommit\<close> and an answer.
\<close>

record env =
  semver_satisfies :: "string \<Rightarrow> string \<Rightarrow> string + bool"
    \<comment> \<open>\<open>semver.satisfies(version, range)\<close>; \<open>Inl msg\<close> when it throws\<close>
  readJson :: "NpmConfig option"            \<comment> \<open>\<open>fse.readJson(packageJsonPath)\<close>\<close>
  npmInfo :: "string + string"              \<comment> \<open>stdout of \<open>npm info\<close>\<close>
  writeJson :: "string option"
  travisExists :: bool                      \<comment> \<open>\<open>fse.pathExists(travisYamlPath)\<close>\<close>
  loadTravis :: "string + TravisYaml"       \<comment> \<open>\<open>yaml.safeLoad(await fse.readFile(...))\<close>\<close>
  writeTravis :: "string option"
  lockExists :: bool                        \<comment> \<open>\<open>fse.pathExists(packageLockPath)\<close>\<close>
  removeLock :: "string option"
  npmInstall :: "string option"
  npmRun :: "string option"
  getStatus :: "string + string list"       \<comment> \<open>the paths of \<open>element.repo.getStatus()\<close>\<close>
  makeCommit :: "string option"

record state =
  latestGeneratorVersion :: "string option"
  trace :: "event list"

definition emit :: "event \<Rightarrow> state \<Rightarrow> state" where
  "emit e s = s\<lparr>trace := trace s @ [e]\<rparr>"

subsection \<open>Constants\<close>

definition generatorPackageName :: string where
  "generatorPackageName = ''@polymer/gen-typescript-declarations''"

definition npmScriptName :: string where
  "npmScriptName = ''update-types''"

definition npmScriptCommand :: string where
  "npmScriptCommand = ''bower install && gen-typescript-declarations --deleteExisting --outDir .''"

definition quote :: char where
  "quote = CHR 0x27"

definition dquote :: char where
  "dquote = CHR 0x22"

definition backslash :: char where
  "backslash = CHR 0x5C"

definition travisCommand :: string where
  "travisCommand =
     ''npm run update-types && '' @
     ''git diff --exit-code || '' @
     ''(echo -e '' @ [quote, backslash] @ ''n'' @ [backslash] @ ''033[31mERROR:'' @
        [backslash] @ ''033[0m Typings are stale. '' @
     ''Please run '' @ [dquote] @ ''npm run update-types'' @ [dquote] @ ''.'' @ [quote] @ '' && '' @
     ''false)''"

subsection \<open>The version resolver\<close>

text \<open>
  \<open>stdout.match(/latest: '(\d+\.\d+\.\d+)'/)\<close>. At a given start the match is forced:
  each \<open>\d+\<close> is followed by a character that is not a digit, so it takes the whole run
  of digits and giving digits back can never help. The regular expression has no \<open>g\<close> flag,
  so the leftmost start that matches wins, and group 1 is the version.
\<close>

definition is_digit :: "char \<Rightarrow> bool" where
  "is_digit c = (c \<in> set ''0123456789'')"

definition digits1 :: "string \<Rightarrow> (string \<times> string) option" where
  "digits1 s =
     (if takeWhile is_digit s = [] then None
      else Some (takeWhile is_digit s, dropWhile is_digit s))"

definition literal :: "string \<Rightarrow> string \<Rightarrow> string option" where
  "literal l s = (if prefix l s then Some (drop (length l) s) else None)"

definition latestQuote :: string where
  "latestQuote = ''latest: '' @ [quote]"

definition match_here :: "string \<Rightarrow> string option" where
  "match_here s =
     (case literal latestQuote s of None \<Rightarrow> None | Some s1 \<Rightarrow>
     (case digits1 s1 of None \<Rightarrow> None | Some (a, s2) \<Rightarrow>
     (case literal ''.'' s2 of None \<Rightarrow> None | Some s3 \<Rightarrow>
     (case digits1 s3 of None \<Rightarrow> None | Some (b, s4) \<Rightarrow>
     (case literal ''.'' s4 of None \<Rightarrow> None | Some s5 \<Rightarrow>
     (case digits1 s5 of None \<Rightarrow> None | Some (c, s6) \<Rightarrow>
     (case literal [quote] s6 of None \<Rightarrow> None | Some s7 \<Rightarrow>
        Some (a @ ''.'' @ b @ ''.'' @ c))))))))"

fun match_latest :: "string \<Rightarrow> string option" where
  "match_latest [] = None"
| "match_latest (c # cs) =
     (case match_here (c # cs) of Some v \<Rightarrow> Some v | None \<Rightarrow> match_latest cs)"

text \<open>Lines 35-48. The \<open>npm info\<close> child process is started without a \<open>cwd\<close>.\<close>

definition getLatestGeneratorVersion :: "env \<Rightarrow> state \<Rightarrow> (error + string) \<times> state" where
  "getLatestGeneratorVersion e s =
     (case latestGeneratorVersion s of
        Some v \<Rightarrow> (Inr v, s)
      | None \<Rightarrow>
          (let s1 = emit (ExecFile ''npm'' [''info'', generatorPackageName] None) s in
           case npmInfo e of
             Inl msg \<Rightarrow> (Inl (Rejected msg), s1)
           | Inr stdout \<Rightarrow>
               (case match_latest stdout of
                  None \<Rightarrow>
                    (Inl (Error (''Could not find latest version of '' @ generatorPackageName)), s1)
                | Some v \<Rightarrow> (Inr v, s1\<lparr>latestGeneratorVersion := Some v\<rparr>))))"

subsection \<open>The manifest\<close>

text \<open>Lines 72-77: the two objects are created when they are \<open>undefined\<close>.\<close>

definition ensureMaps :: "'a NpmConfig_scheme \<Rightarrow> 'a NpmConfig_scheme" where
  "ensureMaps packageJson =
     (let p1 = (if devDependencies packageJson = None
                then packageJson\<lparr>devDependencies := Some Map.empty\<rparr> else packageJson)
      in if scripts p1 = None then p1\<lparr>scripts := Some Map.empty\<rparr> else p1)"

text \<open>
  Lines 80-85. Reading a property of \<open>undefined\<close> throws a \<open>TypeError\<close>; the model keeps
  that branch (\<open>UndefinedAccess\<close>), so that the pass not failing there is a theorem and not
  an assumption. The test of line 81 short-circuits: \<open>semver.satisfies\<close> is called only when
  there is an old range, and an exception it throws ends the pass.
\<close>

definition pinGenerator ::
  "env \<Rightarrow> string \<Rightarrow> 'a NpmConfig_scheme \<Rightarrow> error + ('a NpmConfig_scheme \<times> bool)" where
  "pinGenerator e newGeneratorVersion packageJson =
     (case devDependencies packageJson of
        None \<Rightarrow> Inl UndefinedAccess
      | Some deps \<Rightarrow>
          (let pinned = packageJson\<lparr>devDependencies :=
                 Some (deps(generatorPackageName \<mapsto> CHR ''^'' # newGeneratorVersion))\<rparr>
           in case deps generatorPackageName of
                None \<Rightarrow> Inr (pinned, True)
              | Some oldGeneratorRange \<Rightarrow>
                  (case semver_satisfies e newGeneratorVersion oldGeneratorRange of
                     Inl msg \<Rightarrow> Inl (Thrown msg)
                   | Inr satisfied \<Rightarrow> Inr (pinned, \<not> satisfied))))"

text \<open>Lines 89-91.\<close>

definition ensureBower :: "'a NpmConfig_scheme \<Rightarrow> error + 'a NpmConfig_scheme" where
  "ensureBower packageJson =
     (case devDependencies packageJson of
        None \<Rightarrow> Inl UndefinedAccess
      | Some deps \<Rightarrow>
          (case deps ''bower'' of
             None \<Rightarrow> Inr (packageJson\<lparr>devDependencies := Some (deps(''bower'' \<mapsto> ''^1.8.0''))\<rparr>)
           | Some r \<Rightarrow> Inr packageJson))"

text \<open>Lines 93-96; the flag returned is \<open>updatedNpmScript\<close>.\<close>

definition ensureScript :: "'a NpmConfig_scheme \<Rightarrow> error + ('a NpmConfig_scheme \<times> bool)" where
  "ensureScript packageJson =
     (case scripts packageJson of
        None \<Rightarrow> Inl UndefinedAccess
      | Some scr \<Rightarrow>
          (if scr npmScriptName = Some npmScriptCommand then Inr (packageJson, False)
           else Inr (packageJson\<lparr>scripts := Some (scr(npmScriptName \<mapsto> npmScriptCommand))\<rparr>,
                     True)))"

text \<open>
  Lines 80-96 in one piece: the result is the manifest to be written and the flags
  \<open>majorVersionBump\<close> and \<open>updatedNpmScript\<close>.
\<close>

definition pinAndScript ::
  "env \<Rightarrow> string \<Rightarrow> 'a NpmConfig_scheme \<Rightarrow> error + ('a NpmConfig_scheme \<times> bool \<times> bool)" where
  "pinAndScript e newGeneratorVersion packageJson =
     (case pinGenerator e newGeneratorVersion packageJson of
        Inl err \<Rightarrow> Inl err
      | Inr (p1, majorVersionBump) \<Rightarrow>
          (case ensureBower p1 of
             Inl err \<Rightarrow> Inl err
           | Inr p2 \<Rightarrow>
               (case ensureScript p2 of
                  Inl err \<Rightarrow> Inl err
                | Inr (p3, updatedNpmScript) \<Rightarrow> Inr (p3, majorVersionBump, updatedNpmScript))))"

text \<open>
  The manifest-update step on the parsed manifest, lines 72-96, for a resolved version. The
  call of the resolver at line 79 sits between the two halves and does not touch the manifest.
\<close>

definition updateManifest ::
  "env \<Rightarrow> string \<Rightarrow> 'a NpmConfig_scheme \<Rightarrow> error + ('a NpmConfig_scheme \<times> bool \<times> bool)" where
  "updateManifest e newGeneratorVersion packageJson =
     pinAndScript e newGeneratorVersion (ensureMaps packageJson)"

text \<open>Lines 59-98: load, update and write the manifest. Returns the two flags.\<close>

definition manifestStep :: "env \<Rightarrow> ElementRepo \<Rightarrow> state \<Rightarrow> (error + (bool \<times> bool)) \<times> state" where
  "manifestStep e element s =
     (let packageJsonPath = Join (dir element) ''package.json'';
          s1 = emit (ReadJson packageJsonPath) s
      in case readJson e of
           None \<Rightarrow> (Inl (Error (ghRepo_name element @ '': Missing or invalid package.json.'')), s1)
         | Some packageJson \<Rightarrow>
             (let p1 = ensureMaps packageJson in
              case getLatestGeneratorVersion e s1 of
                (Inl err, s2) \<Rightarrow> (Inl err, s2)
              | (Inr newGeneratorVersion, s2) \<Rightarrow>
                  (case pinAndScript e newGeneratorVersion p1 of
                     Inl err \<Rightarrow> (Inl err, s2)
                   | Inr (p2, majorVersionBump, updatedNpmScript) \<Rightarrow>
                       (let s3 = emit (WriteJson packageJsonPath p2) s2 in
                        case writeJson e of
                          Some msg \<Rightarrow> (Inl (Rejected msg), s3)
                        | None \<Rightarrow> (Inr (majorVersionBump, updatedNpmScript), s3)))))"

subsection \<open>The CI configuration\<close>

text \<open>Lines 107-126 on the loaded document.\<close>

definition updateTravis :: "'a TravisYaml_scheme \<Rightarrow> 'a TravisYaml_scheme" where
  "updateTravis travisYaml =
     (let lines0 = (case before_script travisYaml of None \<Rightarrow> [] | Some ls \<Rightarrow> ls);
          kept = filter (\<lambda>line. \<not> sublist ''update-types'' line) lines0
      in travisYaml\<lparr>before_script := Some (kept @ [travisCommand])\<rparr>)"

text \<open>Lines 101-130.\<close>

definition travisStep :: "env \<Rightarrow> ElementRepo \<Rightarrow> state \<Rightarrow> (error + unit) \<times> state" where
  "travisStep e element s =
     (let travisYamlPath = Join (dir element) ''.travis.yml'';
          s1 = emit (PathExists travisYamlPath) s
      in if travisExists e then
           (let s2 = emit (ReadFile travisYamlPath) s1 in
            case loadTravis e of
              Inl msg \<Rightarrow> (Inl (Rejected msg), s2)
            | Inr travisYaml \<Rightarrow>
                (let s3 = emit (WriteFile travisYamlPath (updateTravis travisYaml)) s2 in
                 case writeTravis e of
                   Some msg \<Rightarrow> (Inl (Rejected msg), s3)
                 | None \<Rightarrow> (Inr (), s3)))
         else (Inr (), emit (ConsoleLog (ghRepo_name element @ '': Missing .travis.yaml'')) s1))"

subsection \<open>Install and generate\<close>

text \<open>Lines 132-143.\<close>

definition deleteLock :: "env \<Rightarrow> ElementRepo \<Rightarrow> state \<Rightarrow> (error + unit) \<times> state" where
  "deleteLock e element s =
     (let packageLockPath = Join (dir element) ''package-lock.json'';
          s1 = emit (PathExists packageLockPath) s
      in if lockExists e then
           (let s2 = emit (Remove packageLockPath) s1 in
            case removeLock e of
              Some msg \<Rightarrow> (Inl (Rejected msg), s2)
            | None \<Rightarrow> (Inr (), s2))
         else (Inr (), s1))"

definition installStep :: "env \<Rightarrow> ElementRepo \<Rightarrow> state \<Rightarrow> (error + unit) \<times> state" where
  "installStep e element s =
     (case deleteLock e element s of
        (Inl err, s2) \<Rightarrow> (Inl err, s2)
      | (Inr u, s2) \<Rightarrow>
          (let s3 = emit (ExecFile ''npm'' [''install''] (Some (dir element))) s2 in
           case npmInstall e of
             Some msg \<Rightarrow> (Inl (Rejected msg), s3)
           | None \<Rightarrow>
               (let s4 = emit (ExecFile ''npm'' [''run'', npmScriptName] (Some (dir element))) s3 in
                case npmRun e of
                  Some msg \<Rightarrow> (Inl (Rejected msg), s4)
                | None \<Rightarrow> (Inr (), s4))))"

subsection \<open>Classification of the changed files and the commit\<close>

text \<open>
  The loop of lines 146-160 over the changed paths. The accumulators are the local variables
  \<open>updatedTypes\<close>, \<open>updatedTravis\<close> and \<open>commitFiles\<close>; the state carries the log lines.
\<close>

fun classify ::
  "string \<Rightarrow> string list \<Rightarrow> bool \<Rightarrow> bool \<Rightarrow> string list \<Rightarrow> state \<Rightarrow>
     bool \<times> bool \<times> string list \<times> state" where
  "classify name [] updatedTypes updatedTravis commitFiles s =
     (updatedTypes, updatedTravis, commitFiles, s)"
| "classify name (filepath # rest) updatedTypes updatedTravis commitFiles s =
     (if suffix ''.d.ts'' filepath then
        classify name rest True updatedTravis (commitFiles @ [filepath]) s
      else if filepath = ''.travis.yml'' then
        classify name rest updatedTypes True (commitFiles @ [filepath]) s
      else if filepath = ''package.json'' \<or> filepath = ''package-lock.json'' then
        classify name rest updatedTypes updatedTravis (commitFiles @ [filepath]) s
      else
        classify name rest updatedTypes updatedTravis commitFiles
          (emit (ConsoleLog (name @ '': Unexpected changed file: '' @ filepath)) s))"

text \<open>Lines 145-168, with the flags of the manifest step as arguments.\<close>

definition commitStep ::
  "env \<Rightarrow> ElementRepo \<Rightarrow> bool \<Rightarrow> bool \<Rightarrow> state \<Rightarrow> (error + unit) \<times> state" where
  "commitStep e element majorVersionBump updatedNpmScript s =
     (let s1 = emit GetStatus s in
      case getStatus e of
        Inl msg \<Rightarrow> (Inl (Rejected msg), s1)
      | Inr changed \<Rightarrow>
          (case classify (ghRepo_name element) changed False False [] s1 of
             (updatedTypes, updatedTravis, commitFiles, s2) \<Rightarrow>
               if updatedTypes \<or> majorVersionBump \<or> updatedNpmScript \<or> updatedTravis then
                 (let s3 = emit (MakeCommit commitFiles
                                   ''Update and/or configure type declarations.'') s2 in
                  case makeCommit e of
                    Some msg \<Rightarrow> (Inl (Rejected msg), s3)
                  | None \<Rightarrow> (Inr (), s3))
               else (Inr (), emit (ConsoleLog (ghRepo_name element @ '': No typings changed.'')) s2)))"

subsection \<open>The pass\<close>

text \<open>Lines 58-169: the steps in order; the first failure ends the pass.\<close>

definition typescriptPass :: "env \<Rightarrow> ElementRepo \<Rightarrow> state \<Rightarrow> (error + unit) \<times> state" where
  "typescriptPass e element s =
     (case manifestStep e element s of
        (Inl err, s1) \<Rightarrow> (Inl err, s1)
      | (Inr (majorVersionBump, updatedNpmScript), s1) \<Rightarrow>
          (case travisStep e element s1 of
             (Inl err, s2) \<Rightarrow> (Inl err, s2)
           | (Inr u, s2) \<Rightarrow>
               (case installStep e element s2 of
                  (Inl err, s3) \<Rightarrow> (Inl err, s3)
                | (Inr u', s3) \<Rightarrow> commitStep e element majorVersionBump updatedNpmScript s3)))"

subsection \<open>Vocabulary of the properties\<close>

text \<open>
  A changed path that none of the three tests of the loop accepts: it does not end in
  \<open>.d.ts\<close> and is none of the three fixed names.
\<close>

definition unexpected :: "string \<Rightarrow> bool" where
  "unexpected filepath =
     (\<not> suffix ''.d.ts'' filepath \<and> filepath \<noteq> ''.travis.yml'' \<and>
      filepath \<noteq> ''package.json'' \<and> filepath \<noteq> ''package-lock.json'')"

definition unexpectedLog :: "string \<Rightarrow> string \<Rightarrow> event" where
  "unexpectedLog name filepath = ConsoleLog (name @ '': Unexpected changed file: '' @ filepath)"

definition commitMessage :: string where
  "commitMessage = ''Update and/or configure type declarations.''"

text \<open>The three fixed paths of a repository.\<close>

definition packageJsonPath :: "ElementRepo \<Rightarrow> path" where
  "packageJsonPath element = Join (dir element) ''package.json''"

definition travisYamlPath :: "ElementRepo \<Rightarrow> path" where
  "travisYamlPath element = Join (dir element) ''.travis.yml''"

definition packageLockPath :: "ElementRepo \<Rightarrow> path" where
  "packageLockPath element = Join (dir element) ''package-lock.json''"

text \<open>The events of the three child processes.\<close>

definition npmInfoExec :: event where
  "npmInfoExec = ExecFile ''npm'' [''info'', generatorPackageName] None"

definition npmInstallExec :: "ElementRepo \<Rightarrow> event" where
  "npmInstallExec element = ExecFile ''npm'' [''install''] (Some (dir element))"

definition npmRunExec :: "ElementRepo \<Rightarrow> event" where
  "npmRunExec element = ExecFile ''npm'' [''run'', npmScriptName] (Some (dir element))"

text \<open>The events of the lock-file deletion, as far as it gets.\<close>

definition lockEvents :: "env \<Rightarrow> ElementRepo \<Rightarrow> event list" where
  "lockEvents e element =
     (if lockExists e then [PathExists (packageLockPath element), Remove (packageLockPath element)]
      else [PathExists (packageLockPath element)])"

text \<open>The old entry of a dependency, \<open>None\<close> also when the whole object is absent.\<close>

definition oldDep :: "'a NpmConfig_scheme \<Rightarrow> string \<Rightarrow> string option" where
  "oldDep packageJson k = (case devDependencies packageJson of None \<Rightarrow> None | Some deps \<Rightarrow> deps k)"

definition oldScript :: "'a NpmConfig_scheme \<Rightarrow> string \<Rightarrow> string option" where
  "oldScript packageJson k = (case scripts packageJson of None \<Rightarrow> None | Some scr \<Rightarrow> scr k)"

text \<open>
  The test of lines 81-82 on the manifest as it was read: the value of \<open>majorVersionBump\<close>,
  or the message of the exception of \<open>semver.satisfies\<close>.
\<close>

definition bumpCheck :: "env \<Rightarrow> string \<Rightarrow> 'a NpmConfig_scheme \<Rightarrow> string + bool" where
  "bumpCheck e v packageJson =
     (case oldDep packageJson generatorPackageName of
        None \<Rightarrow> Inr True
      | Some r \<Rightarrow>
          (case semver_satisfies e v r of Inl msg \<Rightarrow> Inl msg | Inr satisfied \<Rightarrow> Inr (\<not> satisfied)))"

text \<open>
  Several calls of the resolver in one process, one after the other; each call has its own
  answers of the outside. \<open>queries\<close> counts the registry queries in a trace.
\<close>

primrec resolverCalls :: "env list \<Rightarrow> state \<Rightarrow> (error + string) list \<times> state" where
  "resolverCalls [] s = ([], s)"
| "resolverCalls (e # es) s =
     (case getLatestGeneratorVersion e s of
        (r, s1) \<Rightarrow> (case resolverCalls es s1 of (rs, s2) \<Rightarrow> (r # rs, s2)))"

definition queries :: "event list \<Rightarrow> nat" where
  "queries t = length (filter (\<lambda>ev. ev = npmInfoExec) t)"

subsection \<open>Example runs\<close>

definition element1 :: ElementRepo where
  "element1 = \<lparr>dir = ''/work/paper-button'', ghRepo_name = ''paper-button''\<rparr>"

definition state0 :: state where
  "state0 = \<lparr>latestGeneratorVersion = None, trace = []\<rparr>"

definition stdout1 :: string where
  "stdout1 = ''dist-tags: { latest: '' @ [quote] @ ''1.2.3'' @ [quote] @ '' }''"

text \<open>
  A repository without \<open>.travis.yml\<close>, with a lock file and an empty manifest; every outside
  call succeeds. The stand-in for \<open>semver.satisfies\<close> knows two ranges that admit 1.2.3
  and throws on the version 01.2.3, as semver 5.x does.
\<close>

definition env1 :: env where
  "env1 = \<lparr>
     semver_satisfies =
       (\<lambda>v r. if v = ''01.2.3'' then Inl ''Invalid Version: 01.2.3''
              else Inr (v = ''1.2.3'' \<and> (r = ''^1.0.0'' \<or> r = ''^1.2.3''))),
     readJson = Some \<lparr>devDependencies = None, scripts = None\<rparr>,
     npmInfo = Inr stdout1,
     writeJson = None,
     travisExists = False,
     loadTravis = Inl ''ENOENT'',
     writeTravis = None,
     lockExists = True,
     removeLock = None,
     npmInstall = None,
     npmRun = None,
     getStatus = Inr [''a.d.ts'', ''.travis.yml'', ''package.json''],
     makeCommit = None\<rparr>"

text \<open>A manifest that already has everything the pass sets, with an older admitted range.\<close>

definition manifest2 :: NpmConfig where
  "manifest2 = \<lparr>
     devDependencies = Some [generatorPackageName \<mapsto> ''^1.0.0'', ''bower'' \<mapsto> ''^1.7.0''],
     scripts = Some [npmScriptName \<mapsto> npmScriptCommand]\<rparr>"

definition env2 :: env where
  "env2 = env1\<lparr>readJson := Some manifest2, getStatus := Inr [''package.json'']\<rparr>"



text \<open>The registry answers without a \<open>latest\<close> line; the registry cannot be reached.\<close>

definition env3 :: env where
  "env3 = env1\<lparr>npmInfo := Inr ''npm ERR! 404''\<rparr>"

definition env5 :: env where
  "env5 = env1\<lparr>npmInfo := Inl ''getaddrinfo ENOTFOUND registry.npmjs.org''\<rparr>"

section \<open>Properties\<close>

subsection \<open>The CI configuration is replaced, not accumulated\<close>

lemma marker_in_travisCommand: "sublist ''update-types'' travisCommand"
proof -
  have "travisCommand = ''npm run '' @ ''update-types'' @ drop 20 travisCommand"
    by (simp add: travisCommand_def)
  then show ?thesis
    by (metis sublist_appendI)
qed

lemma count_kept:
  "count_list (filter (\<lambda>line. \<not> sublist ''update-types'' line) xs) travisCommand = 0"
  by (induction xs) (auto simp: marker_in_travisCommand)

lemma before_script_updateTravis:
  "before_script (updateTravis y) =
     Some (filter (\<lambda>line. \<not> sublist ''update-types'' line)
             (case before_script y of None \<Rightarrow> [] | Some ls \<Rightarrow> ls) @ [travisCommand])"
  by (simp add: updateTravis_def Let_def)

lemma travisStep_present:
  assumes "travisExists e" and "loadTravis e = Inr y"
  shows "travisStep e element s =
     (case writeTravis e of Some msg \<Rightarrow> Inl (Rejected msg) | None \<Rightarrow> Inr (),
      s\<lparr>trace := trace s @ [PathExists (travisYamlPath element), ReadFile (travisYamlPath element),
                  WriteFile (travisYamlPath element) (updateTravis y)]\<rparr>)"
  using assms
  by (simp add: travisStep_def travisYamlPath_def emit_def Let_def split: option.splits)

text \<open>
  C3. For every CI configuration document, an update keeps, in their order, the lines of
  \<open>before_script\<close> that do not contain the marker \<open>update-types\<close>, drops the others and
  appends the injected command once; nothing else of the document changes. Two updates in a
  row give the same document as one: the list holds exactly one copy of the command and
  exactly one line with the marker, not two. In the pass: a run that finds the file and loads
  the document writes the updated document, and a second run that loads what the first one
  wrote writes the same document again.
\<close>

theorem updateTravis_twice_one_copy:
  "updateTravis y =
     y\<lparr>before_script :=
          Some (filter (\<lambda>line. \<not> sublist ''update-types'' line)
                  (case before_script y of None \<Rightarrow> [] | Some ls \<Rightarrow> ls) @ [travisCommand])\<rparr> \<and>
   updateTravis (updateTravis y) =
     y\<lparr>before_script :=
          Some (filter (\<lambda>line. \<not> sublist ''update-types'' line)
                  (case before_script y of None \<Rightarrow> [] | Some ls \<Rightarrow> ls) @ [travisCommand])\<rparr> \<and>
   (\<exists>ls. before_script (updateTravis (updateTravis y)) = Some ls \<and>
         count_list ls travisCommand = 1 \<and>
         length (filter (sublist ''update-types'') ls) = 1) \<and>
   (\<exists>ls. before_script (updateTravis y) = Some ls \<and> count_list ls travisCommand = 1) \<and>
   updateTravis (updateTravis y) = updateTravis y \<and>
   (travisExists e \<and> loadTravis e = Inr y \<and>
    travisExists e' \<and> loadTravis e' = Inr (updateTravis y) \<longrightarrow>
      snd (travisStep e element s) =
        s\<lparr>trace := trace s @
             [PathExists (travisYamlPath element), ReadFile (travisYamlPath element),
              WriteFile (travisYamlPath element) (updateTravis y)]\<rparr> \<and>
      snd (travisStep e' element s') =
        s'\<lparr>trace := trace s' @
             [PathExists (travisYamlPath element), ReadFile (travisYamlPath element),
              WriteFile (travisYamlPath element) (updateTravis y)]\<rparr>)"
proof -
  let ?keep = "filter (\<lambda>line. \<not> sublist ''update-types'' line)"
  let ?old = "case before_script y of None \<Rightarrow> [] | Some ls \<Rightarrow> ls"
  have def1: "updateTravis y = y\<lparr>before_script := Some (?keep ?old @ [travisCommand])\<rparr>"
    by (simp add: updateTravis_def Let_def)
  have one: "before_script (updateTravis y) = Some (?keep ?old @ [travisCommand])"
    by (rule before_script_updateTravis)
  have two: "before_script (updateTravis (updateTravis y)) = Some (?keep ?old @ [travisCommand])"
    by (simp add: before_script_updateTravis [of "updateTravis y"] one marker_in_travisCommand)
  have cnt: "count_list (?keep ?old @ [travisCommand]) travisCommand = 1"
    by (simp add: count_kept)
  have mk: "length (filter (sublist ''update-types'') (?keep ?old @ [travisCommand])) = 1"
    by (simp add: marker_in_travisCommand)
  have idem: "updateTravis (updateTravis y) = updateTravis y"
    using one by (simp add: updateTravis_def Let_def marker_in_travisCommand)
  have def2: "updateTravis (updateTravis y) =
                y\<lparr>before_script := Some (?keep ?old @ [travisCommand])\<rparr>"
    using idem def1 by simp
  have runs: "snd (travisStep e element s) =
        s\<lparr>trace := trace s @
             [PathExists (travisYamlPath element), ReadFile (travisYamlPath element),
              WriteFile (travisYamlPath element) (updateTravis y)]\<rparr> \<and>
      snd (travisStep e' element s') =
        s'\<lparr>trace := trace s' @
             [PathExists (travisYamlPath element), ReadFile (travisYamlPath element),
              WriteFile (travisYamlPath element) (updateTravis y)]\<rparr>"
    if "travisExists e" "loadTravis e = Inr y" "travisExists e'" "loadTravis e' = Inr (updateTravis y)"
    using travisStep_present [OF that(1,2)] travisStep_present [OF that(3,4)] idem by simp
  have counts: "(\<exists>ls. before_script (updateTravis (updateTravis y)) = Some ls \<and>
         count_list ls travisCommand = 1 \<and>
         length (filter (sublist ''update-types'') ls) = 1) \<and>
   (\<exists>ls. before_script (updateTravis y) = Some ls \<and> count_list ls travisCommand = 1)"
    using one two cnt mk by simp
  show ?thesis
    using def1 def2 counts idem runs by (intro conjI impI) blast+
qed

subsection \<open>The version resolver\<close>

lemma resolver_cached:
  "latestGeneratorVersion s = Some v \<Longrightarrow> getLatestGeneratorVersion e s = (Inr v, s)"
  by (simp add: getLatestGeneratorVersion_def)

lemma resolver_fresh:
  assumes "latestGeneratorVersion s = None"
  shows "getLatestGeneratorVersion e s =
     (case npmInfo e of
        Inl msg \<Rightarrow> (Inl (Rejected msg), s\<lparr>trace := trace s @ [npmInfoExec]\<rparr>)
      | Inr out \<Rightarrow>
          (case match_latest out of
             None \<Rightarrow> (Inl (Error (''Could not find latest version of '' @ generatorPackageName)),
                      s\<lparr>trace := trace s @ [npmInfoExec]\<rparr>)
           | Some v \<Rightarrow> (Inr v, s\<lparr>latestGeneratorVersion := Some v,
                                 trace := trace s @ [npmInfoExec]\<rparr>)))"
  using assms
  by (simp add: getLatestGeneratorVersion_def npmInfoExec_def emit_def Let_def
           split: sum.splits option.splits)

lemma resolver_success_stores:
  "getLatestGeneratorVersion e s = (Inr v, s1) \<Longrightarrow> latestGeneratorVersion s1 = Some v"
  by (cases "latestGeneratorVersion s")
     (auto simp: resolver_fresh resolver_cached split: sum.splits option.splits)

lemma resolver_failure_keeps_cache:
  "getLatestGeneratorVersion e s = (Inl err, s1) \<Longrightarrow>
   latestGeneratorVersion s = None \<and> latestGeneratorVersion s1 = None \<and>
   trace s1 = trace s @ [npmInfoExec]"
  by (cases "latestGeneratorVersion s")
     (auto simp: resolver_fresh resolver_cached split: sum.splits option.splits)

lemma resolverCalls_cached:
  "latestGeneratorVersion s = Some v \<Longrightarrow>
   resolverCalls es s = (replicate (length es) (Inr v), s)"
  by (induction es) (simp_all add: resolver_cached)

lemma queries_append: "queries (t @ u) = queries t + queries u"
  by (simp add: queries_def)

lemma queries_one: "queries [npmInfoExec] = 1"
  by (simp add: queries_def)

lemma resolverCalls_queries:
  "queries (trace (snd (resolverCalls es s))) =
     queries (trace s) + length (filter isl (fst (resolverCalls es s))) +
     (if latestGeneratorVersion s = None \<and> list_ex (\<lambda>r. \<not> isl r) (fst (resolverCalls es s))
      then 1 else 0)"
proof (induction es arbitrary: s)
  case Nil
  then show ?case by simp
next
  case (Cons e es)
  obtain r s1 where g: "getLatestGeneratorVersion e s = (r, s1)"
    by (cases "getLatestGeneratorVersion e s")
  obtain rs s2 where c: "resolverCalls es s1 = (rs, s2)"
    by (cases "resolverCalls es s1")
  have ih: "queries (trace s2) =
     queries (trace s1) + length (filter isl rs) +
     (if latestGeneratorVersion s1 = None \<and> list_ex (\<lambda>r. \<not> isl r) rs then 1 else 0)"
    using Cons.IH [of s1] c by simp
  show ?case
  proof (cases r)
    case (Inl err)
    then have "latestGeneratorVersion s = None" "latestGeneratorVersion s1 = None"
      "trace s1 = trace s @ [npmInfoExec]"
      using resolver_failure_keeps_cache g by blast+
    then show ?thesis
      using g c ih Inl by (simp add: queries_append queries_one)
  next
    case (Inr v)
    then have st: "latestGeneratorVersion s1 = Some v"
      using resolver_success_stores g by blast
    then have all: "rs = replicate (length es) (Inr v)" "s2 = s1"
      using resolverCalls_cached [of s1 v es] c by simp_all
    have noisl: "filter isl rs = []"
      using all(1) by (simp add: filter_empty_conv)
    show ?thesis
    proof (cases "latestGeneratorVersion s")
      case None
      then have "trace s1 = trace s @ [npmInfoExec]"
        using g Inr by (auto simp: resolver_fresh split: sum.splits option.splits)
      then show ?thesis
        using g c Inr None all(2) noisl by (simp add: queries_append queries_one)
    next
      case (Some w)
      then have "s1 = s"
        using g by (simp add: resolver_cached)
      then show ?thesis
        using g c Inr Some all(2) noisl by simp
    qed
  qed
qed

text \<open>
  The matcher against the regular expression, read as a language: \<open>match_latest\<close> finds
  nothing exactly when the output has no occurrence of \<open>latest: '\<close>, three non-empty runs
  of digits separated by dots, and a closing quote; what it finds is such an occurrence.
\<close>

lemma literal_Some: "literal l s = Some r \<longleftrightarrow> s = l @ r"
  by (auto simp: literal_def prefix_def)

lemma not_digit: "\<not> is_digit CHR ''.''" "\<not> is_digit quote"
  by (simp_all add: is_digit_def quote_def)

lemma digits1_Some:
  "digits1 s = Some (a, r) \<longleftrightarrow>
     s = a @ r \<and> a \<noteq> [] \<and> list_all is_digit a \<and> (r = [] \<or> \<not> is_digit (hd r))"
proof
  assume "digits1 s = Some (a, r)"
  then have a: "a = takeWhile is_digit s" and r: "r = dropWhile is_digit s" and n: "a \<noteq> []"
    by (auto simp: digits1_def split: if_splits)
  have "r = [] \<or> \<not> is_digit (hd r)"
    using r hd_dropWhile [of is_digit s] by auto
  moreover have "list_all is_digit a"
    using a by (auto simp: list_all_iff dest: set_takeWhileD)
  ultimately show "s = a @ r \<and> a \<noteq> [] \<and> list_all is_digit a \<and> (r = [] \<or> \<not> is_digit (hd r))"
    using a r n by simp
next
  assume h: "s = a @ r \<and> a \<noteq> [] \<and> list_all is_digit a \<and> (r = [] \<or> \<not> is_digit (hd r))"
  then have r0: "takeWhile is_digit r = []" "dropWhile is_digit r = r"
    by (cases r; auto)+
  have "takeWhile is_digit s = a" "dropWhile is_digit s = r"
    using h r0 by (simp_all add: list_all_iff takeWhile_append2 dropWhile_append2)
  then show "digits1 s = Some (a, r)"
    using h by (simp add: digits1_def)
qed

lemma match_here_Some:
  "match_here s = Some v \<longleftrightarrow>
     (\<exists>a b c post.
        s = latestQuote @ a @ ''.'' @ b @ ''.'' @ c @ [quote] @ post \<and>
        a \<noteq> [] \<and> b \<noteq> [] \<and> c \<noteq> [] \<and>
        list_all is_digit a \<and> list_all is_digit b \<and> list_all is_digit c \<and>
        v = a @ ''.'' @ b @ ''.'' @ c)"
proof
  assume "match_here s = Some v"
  then obtain s1 a s2 s3 b s4 s5 c s6 s7 where
    "literal latestQuote s = Some s1" "digits1 s1 = Some (a, s2)"
    "literal ''.'' s2 = Some s3" "digits1 s3 = Some (b, s4)"
    "literal ''.'' s4 = Some s5" "digits1 s5 = Some (c, s6)"
    "literal [quote] s6 = Some s7" "v = a @ ''.'' @ b @ ''.'' @ c"
    by (auto simp: match_here_def split: option.splits)
  then show "\<exists>a b c post.
        s = latestQuote @ a @ ''.'' @ b @ ''.'' @ c @ [quote] @ post \<and>
        a \<noteq> [] \<and> b \<noteq> [] \<and> c \<noteq> [] \<and>
        list_all is_digit a \<and> list_all is_digit b \<and> list_all is_digit c \<and>
        v = a @ ''.'' @ b @ ''.'' @ c"
    by (intro exI [of _ a] exI [of _ b] exI [of _ c] exI [of _ s7])
       (simp add: literal_Some digits1_Some)
next
  assume "\<exists>a b c post.
        s = latestQuote @ a @ ''.'' @ b @ ''.'' @ c @ [quote] @ post \<and>
        a \<noteq> [] \<and> b \<noteq> [] \<and> c \<noteq> [] \<and>
        list_all is_digit a \<and> list_all is_digit b \<and> list_all is_digit c \<and>
        v = a @ ''.'' @ b @ ''.'' @ c"
  then obtain a b c post where
    s: "s = latestQuote @ a @ ''.'' @ b @ ''.'' @ c @ [quote] @ post"
    and n: "a \<noteq> []" "b \<noteq> []" "c \<noteq> []"
    and d: "list_all is_digit a" "list_all is_digit b" "list_all is_digit c"
    and v: "v = a @ ''.'' @ b @ ''.'' @ c"
    by blast
  let ?s6 = "[quote] @ post"
  let ?s5 = "c @ ?s6"
  let ?s4 = "''.'' @ ?s5"
  let ?s3 = "b @ ?s4"
  let ?s2 = "''.'' @ ?s3"
  let ?s1 = "a @ ?s2"
  have l1: "literal latestQuote s = Some ?s1"
    by (simp add: literal_Some s)
  have d1: "digits1 ?s1 = Some (a, ?s2)"
    using n d not_digit by (simp add: digits1_Some)
  have l2: "literal ''.'' ?s2 = Some ?s3"
    by (simp add: literal_Some)
  have d2: "digits1 ?s3 = Some (b, ?s4)"
    using n d not_digit by (simp add: digits1_Some)
  have l3: "literal ''.'' ?s4 = Some ?s5"
    by (simp add: literal_Some)
  have d3: "digits1 ?s5 = Some (c, ?s6)"
    using n d not_digit by (simp add: digits1_Some)
  have l4: "literal [quote] ?s6 = Some post"
    by (simp add: literal_Some)
  show "match_here s = Some v"
    unfolding match_here_def by (simp only: l1 d1 l2 d2 l3 d3 l4 option.case prod.case v)
qed

lemma match_here_Nil: "match_here [] = None"
  by (simp add: match_here_def literal_def latestQuote_def)

lemma match_latest_None:
  "match_latest s = None \<longleftrightarrow> (\<forall>pre t. s = pre @ t \<longrightarrow> match_here t = None)"
proof (induction s)
  case Nil
  then show ?case by (simp add: match_here_Nil)
next
  case (Cons x xs)
  show ?case
  proof
    assume h: "match_latest (x # xs) = None"
    then have a: "match_here (x # xs) = None" and b: "match_latest xs = None"
      by (auto split: option.splits)
    show "\<forall>pre t. x # xs = pre @ t \<longrightarrow> match_here t = None"
    proof (intro allI impI)
      fix pre t
      assume e: "x # xs = pre @ t"
      show "match_here t = None"
      proof (cases pre)
        case Nil
        then show ?thesis using e a by simp
      next
        case (Cons y ys)
        then have "xs = ys @ t" using e by simp
        then show ?thesis using b Cons.IH by blast
      qed
    qed
  next
    assume h: "\<forall>pre t. x # xs = pre @ t \<longrightarrow> match_here t = None"
    then have a: "match_here (x # xs) = None"
      by (metis append_Nil)
    have "\<forall>pre t. xs = pre @ t \<longrightarrow> match_here t = None"
      using h by (metis append_Cons)
    then have "match_latest xs = None"
      using Cons.IH by blast
    then show "match_latest (x # xs) = None"
      using a by simp
  qed
qed

lemma match_latest_None_iff:
  "match_latest s = None \<longleftrightarrow>
     \<not> (\<exists>pre a b c post.
          s = pre @ latestQuote @ a @ ''.'' @ b @ ''.'' @ c @ [quote] @ post \<and>
          a \<noteq> [] \<and> b \<noteq> [] \<and> c \<noteq> [] \<and>
          list_all is_digit a \<and> list_all is_digit b \<and> list_all is_digit c)"
  (is "?N \<longleftrightarrow> \<not> ?R")
proof
  assume n: ?N
  show "\<not> ?R"
  proof
    assume ?R
    then obtain pre a b c post where
      s: "s = pre @ latestQuote @ a @ ''.'' @ b @ ''.'' @ c @ [quote] @ post"
      and r: "a \<noteq> []" "b \<noteq> []" "c \<noteq> []"
        "list_all is_digit a" "list_all is_digit b" "list_all is_digit c"
      by blast
    let ?t = "latestQuote @ a @ ''.'' @ b @ ''.'' @ c @ [quote] @ post"
    have "match_here ?t = Some (a @ ''.'' @ b @ ''.'' @ c)"
      unfolding match_here_Some
      using r by (intro exI [of _ a] exI [of _ b] exI [of _ c] exI [of _ post]) simp
    moreover have "match_here ?t = None"
      using n s unfolding match_latest_None by blast
    ultimately show False
      by simp
  qed
next
  assume nr: "\<not> ?R"
  have "match_here t = None" if "s = pre @ t" for pre t
  proof (cases "match_here t")
    case None
    then show ?thesis .
  next
    case (Some v)
    then obtain a b c post where
      "t = latestQuote @ a @ ''.'' @ b @ ''.'' @ c @ [quote] @ post"
      "a \<noteq> []" "b \<noteq> []" "c \<noteq> []"
      "list_all is_digit a" "list_all is_digit b" "list_all is_digit c"
      unfolding match_here_Some by blast
    then have ?R
      using that by (intro exI [of _ pre] exI [of _ a] exI [of _ b] exI [of _ c] exI [of _ post]) simp
    then show ?thesis
      using nr by simp
  qed
  then show ?N
    unfolding match_latest_None by blast
qed

lemma match_latest_Some:
  assumes "match_latest s = Some v"
  shows "\<exists>pre a b c post.
           s = pre @ latestQuote @ v @ [quote] @ post \<and> v = a @ ''.'' @ b @ ''.'' @ c \<and>
           a \<noteq> [] \<and> b \<noteq> [] \<and> c \<noteq> [] \<and>
           list_all is_digit a \<and> list_all is_digit b \<and> list_all is_digit c"
  using assms
proof (induction s)
  case Nil
  then show ?case by simp
next
  case (Cons x xs)
  show ?case
  proof (cases "match_here (x # xs)")
    case None
    then have "match_latest xs = Some v"
      using Cons.prems by simp
    then obtain pre a b c post where
      "xs = pre @ latestQuote @ v @ [quote] @ post" "v = a @ ''.'' @ b @ ''.'' @ c"
      "a \<noteq> []" "b \<noteq> []" "c \<noteq> []"
      "list_all is_digit a" "list_all is_digit b" "list_all is_digit c"
      using Cons.IH by blast
    then show ?thesis
      by (intro exI [of _ "x # pre"] exI [of _ a] exI [of _ b] exI [of _ c] exI [of _ post]) simp
  next
    case (Some w)
    then have "w = v"
      using Cons.prems by simp
    then obtain a b c post where
      "x # xs = latestQuote @ a @ ''.'' @ b @ ''.'' @ c @ [quote] @ post"
      "a \<noteq> []" "b \<noteq> []" "c \<noteq> []"
      "list_all is_digit a" "list_all is_digit b" "list_all is_digit c"
      "v = a @ ''.'' @ b @ ''.'' @ c"
      using Some unfolding match_here_Some by blast
    then show ?thesis
      by (intro exI [of _ "[]"] exI [of _ a] exI [of _ b] exI [of _ c] exI [of _ post]) simp
  qed
qed

lemma match_no_latest: "match_latest ''npm ERR! 404'' = None"
  by (simp add: match_here_def literal_def latestQuote_def)

lemma match_stdout1: "match_latest stdout1 = Some ''1.2.3''"
  by (simp add: stdout1_def match_here_def literal_def digits1_def is_digit_def quote_def
        latestQuote_def)

lemma resolve_env3:
  "latestGeneratorVersion s = None \<Longrightarrow>
   getLatestGeneratorVersion env3 s =
     (Inl (Error (''Could not find latest version of '' @ generatorPackageName)),
      s\<lparr>trace := trace s @ [npmInfoExec]\<rparr>)"
  by (simp add: resolver_fresh env3_def env1_def match_no_latest del: match_latest.simps)

lemma resolve_env1:
  "latestGeneratorVersion s = None \<Longrightarrow>
   getLatestGeneratorVersion env1 s =
     (Inr ''1.2.3'', s\<lparr>latestGeneratorVersion := Some ''1.2.3'', trace := trace s @ [npmInfoExec]\<rparr>)"
  by (simp add: resolver_fresh env1_def match_stdout1 del: match_latest.simps)

text \<open>
  C9, as the code has it, for calls of the resolver made one after the other in one process.
  A call that finds the version stored returns it without a registry query and without any
  change of the state. A call that finds the variable unset runs the query. If the child
  process fails, the call fails with that failure and stores nothing. If the output has no
  match of the pattern, the call throws
  \<open>Could not find latest version of @polymer/gen-typescript-declarations\<close> and stores
  nothing. Otherwise it stores and returns group 1 of the match, a string of three runs of
  digits separated by dots that stands in the output between \<open>latest: '\<close> and a quote.
  Hence once a call has succeeded, every later call returns that same string and runs no
  query; over any sequence of calls the number of queries is the number of failed calls,
  plus one if the variable was unset and some call succeeded.
\<close>

theorem resolver_queries_until_first_success:
  "(latestGeneratorVersion s = Some w \<longrightarrow> getLatestGeneratorVersion e s = (Inr w, s)) \<and>
   (latestGeneratorVersion s = None \<and> npmInfo e = Inl msg \<longrightarrow>
      getLatestGeneratorVersion e s =
        (Inl (Rejected msg), s\<lparr>trace := trace s @ [npmInfoExec]\<rparr>)) \<and>
   (latestGeneratorVersion s = None \<and> npmInfo e = Inr out \<longrightarrow>
      getLatestGeneratorVersion e s =
        (case match_latest out of
           Some w \<Rightarrow> (Inr w, s\<lparr>latestGeneratorVersion := Some w,
                               trace := trace s @ [npmInfoExec]\<rparr>)
         | None \<Rightarrow>
             (Inl (Error ''Could not find latest version of @polymer/gen-typescript-declarations''),
              s\<lparr>trace := trace s @ [npmInfoExec]\<rparr>)) \<and>
      (match_latest out = None \<longleftrightarrow>
         \<not> (\<exists>pre a b c post.
              out = pre @ latestQuote @ a @ ''.'' @ b @ ''.'' @ c @ [quote] @ post \<and>
              a \<noteq> [] \<and> b \<noteq> [] \<and> c \<noteq> [] \<and>
              list_all is_digit a \<and> list_all is_digit b \<and> list_all is_digit c)) \<and>
      (\<forall>w. match_latest out = Some w \<longrightarrow>
         (\<exists>pre a b c post.
            out = pre @ latestQuote @ w @ [quote] @ post \<and> w = a @ ''.'' @ b @ ''.'' @ c \<and>
            a \<noteq> [] \<and> b \<noteq> [] \<and> c \<noteq> [] \<and>
            list_all is_digit a \<and> list_all is_digit b \<and> list_all is_digit c))) \<and>
   (getLatestGeneratorVersion e s = (Inr v, s1) \<longrightarrow>
      latestGeneratorVersion s1 = Some v \<and>
      resolverCalls es s1 = (replicate (length es) (Inr v), s1)) \<and>
   (getLatestGeneratorVersion e s = (Inl err, s1) \<longrightarrow>
      latestGeneratorVersion s = None \<and> latestGeneratorVersion s1 = None \<and>
      trace s1 = trace s @ [npmInfoExec]) \<and>
   queries (trace (snd (resolverCalls es s))) =
     queries (trace s) + length (filter isl (fst (resolverCalls es s))) +
     (if latestGeneratorVersion s = None \<and> list_ex (\<lambda>r. \<not> isl r) (fst (resolverCalls es s))
      then 1 else 0)"
proof -
  have cached: "getLatestGeneratorVersion e s = (Inr w, s)" if "latestGeneratorVersion s = Some w"
    using that by (rule resolver_cached)
  have rejected: "getLatestGeneratorVersion e s =
        (Inl (Rejected msg), s\<lparr>trace := trace s @ [npmInfoExec]\<rparr>)"
    if "latestGeneratorVersion s = None" "npmInfo e = Inl msg"
    using that by (simp add: resolver_fresh)
  have a: "latestGeneratorVersion s1 = Some v \<and>
           resolverCalls es s1 = (replicate (length es) (Inr v), s1)"
    if "getLatestGeneratorVersion e s = (Inr v, s1)"
    using resolver_success_stores [OF that] resolverCalls_cached by blast
  have b: "getLatestGeneratorVersion e s =
        (case match_latest out of
           Some w \<Rightarrow> (Inr w, s\<lparr>latestGeneratorVersion := Some w,
                               trace := trace s @ [npmInfoExec]\<rparr>)
         | None \<Rightarrow>
             (Inl (Error ''Could not find latest version of @polymer/gen-typescript-declarations''),
              s\<lparr>trace := trace s @ [npmInfoExec]\<rparr>))"
    if "latestGeneratorVersion s = None" "npmInfo e = Inr out"
    using that by (simp add: resolver_fresh generatorPackageName_def split: option.splits)
  have c: "match_latest out = None \<longleftrightarrow>
         \<not> (\<exists>pre a b c post.
              out = pre @ latestQuote @ a @ ''.'' @ b @ ''.'' @ c @ [quote] @ post \<and>
              a \<noteq> [] \<and> b \<noteq> [] \<and> c \<noteq> [] \<and>
              list_all is_digit a \<and> list_all is_digit b \<and> list_all is_digit c)"
    by (rule match_latest_None_iff)
  have d: "\<forall>w. match_latest out = Some w \<longrightarrow>
         (\<exists>pre a b c post.
            out = pre @ latestQuote @ w @ [quote] @ post \<and> w = a @ ''.'' @ b @ ''.'' @ c \<and>
            a \<noteq> [] \<and> b \<noteq> [] \<and> c \<noteq> [] \<and>
            list_all is_digit a \<and> list_all is_digit b \<and> list_all is_digit c)"
    using match_latest_Some by blast
  have f: "latestGeneratorVersion s = None \<and> latestGeneratorVersion s1 = None \<and>
           trace s1 = trace s @ [npmInfoExec]"
    if "getLatestGeneratorVersion e s = (Inl err, s1)"
    using that by (rule resolver_failure_keeps_cache)
  have q: "queries (trace (snd (resolverCalls es s))) =
     queries (trace s) + length (filter isl (fst (resolverCalls es s))) +
     (if latestGeneratorVersion s = None \<and> list_ex (\<lambda>r. \<not> isl r) (fst (resolverCalls es s))
      then 1 else 0)"
    by (rule resolverCalls_queries)
  show ?thesis
    apply (intro conjI impI)
    subgoal using cached by blast
    subgoal using rejected by blast
    subgoal using b by blast
    subgoal by (rule c)
    subgoal by (rule d)
    subgoal using a by blast
    subgoal using a by blast
    subgoal using f by blast
    subgoal using f by blast
    subgoal using f by blast
    subgoal by (rule q)
    done
qed

text \<open>
  C9 as stated says that the query runs at most once in a process. Two calls that both get
  an output without the \<open>latest\<close> line both run it: the first throws and leaves the
  variable unset, so the second starts the child process again.
\<close>

theorem failed_queries_are_repeated:
  "\<not> queries (trace (snd (resolverCalls [env3, env3] state0))) \<le> 1"
proof -
  have c: "latestGeneratorVersion state0 = None"
    by (simp add: state0_def)
  have "resolverCalls [env3, env3] state0 =
          ([Inl (Error (''Could not find latest version of '' @ generatorPackageName)),
            Inl (Error (''Could not find latest version of '' @ generatorPackageName))],
           state0\<lparr>trace := trace state0 @ [npmInfoExec, npmInfoExec]\<rparr>)"
    using c by (simp add: resolve_env3)
  then show ?thesis
    by (simp add: queries_def state0_def)
qed

subsection \<open>The manifest\<close>

lemma names_differ:
  "generatorPackageName \<noteq> ''bower''" "''bower'' \<noteq> generatorPackageName"
  by (simp_all add: generatorPackageName_def)

lemma updateManifest_eq:
  "updateManifest e v p =
     (case bumpCheck e v p of
        Inl msg \<Rightarrow> Inl (Thrown msg)
      | Inr majorVersionBump \<Rightarrow>
          Inr (p\<lparr>devDependencies :=
                   Some ((case oldDep p ''bower'' of
                            None \<Rightarrow> (\<lambda>d. d(''bower'' \<mapsto> ''^1.8.0''))
                          | Some r \<Rightarrow> (\<lambda>d. d))
                         ((case devDependencies p of None \<Rightarrow> Map.empty | Some d \<Rightarrow> d)
                            (generatorPackageName \<mapsto> CHR ''^'' # v))),
                 scripts :=
                   Some ((case scripts p of None \<Rightarrow> Map.empty | Some sc \<Rightarrow> sc)
                           (npmScriptName \<mapsto> npmScriptCommand))\<rparr>,
               majorVersionBump,
               oldScript p npmScriptName \<noteq> Some npmScriptCommand))"
  by (cases "devDependencies p"; cases "scripts p")
     (auto simp: updateManifest_def pinAndScript_def ensureMaps_def pinGenerator_def
        ensureBower_def ensureScript_def oldDep_def oldScript_def bumpCheck_def names_differ
        Let_def map_upd_triv
        split: option.splits sum.splits)

lemma updateManifest_result:
  assumes "updateManifest e v p = Inr (p', majorVersionBump, updatedNpmScript)"
  shows "\<exists>deps scr.
           devDependencies p' = Some deps \<and> scripts p' = Some scr \<and>
           deps generatorPackageName = Some (CHR ''^'' # v) \<and>
           deps ''bower'' = (case oldDep p ''bower'' of None \<Rightarrow> Some ''^1.8.0'' | Some b \<Rightarrow> Some b) \<and>
           scr npmScriptName = Some npmScriptCommand \<and>
           bumpCheck e v p = Inr majorVersionBump \<and>
           updatedNpmScript = (oldScript p npmScriptName \<noteq> Some npmScriptCommand)"
proof -
  let ?deps = "(case oldDep p ''bower'' of
                  None \<Rightarrow> (\<lambda>d. d(''bower'' \<mapsto> ''^1.8.0''))
                | Some r \<Rightarrow> (\<lambda>d. d))
               ((case devDependencies p of None \<Rightarrow> Map.empty | Some d \<Rightarrow> d)
                  (generatorPackageName \<mapsto> CHR ''^'' # v))"
  let ?scr = "(case scripts p of None \<Rightarrow> Map.empty | Some sc \<Rightarrow> sc)
                (npmScriptName \<mapsto> npmScriptCommand)"
  have p': "p' = p\<lparr>devDependencies := Some ?deps, scripts := Some ?scr\<rparr>"
    and m: "bumpCheck e v p = Inr majorVersionBump"
    and u: "updatedNpmScript = (oldScript p npmScriptName \<noteq> Some npmScriptCommand)"
    using assms by (simp_all add: updateManifest_eq split: sum.splits)
  have d: "devDependencies p' = Some ?deps" and s: "scripts p' = Some ?scr"
    by (simp_all add: p')
  have g: "?deps generatorPackageName = Some (CHR ''^'' # v)"
    by (cases "oldDep p ''bower''") (simp_all add: names_differ)
  have b: "?deps ''bower'' =
             (case oldDep p ''bower'' of None \<Rightarrow> Some ''^1.8.0'' | Some b \<Rightarrow> Some b)"
    by (cases "devDependencies p"; cases "oldDep p ''bower''")
       (simp_all add: names_differ oldDep_def)
  have c: "?scr npmScriptName = Some npmScriptCommand"
    by simp
  show ?thesis
    using d s g b c m u by blast
qed

lemma updateManifest_ok:
  assumes "bumpCheck e v p = Inr majorVersionBump"
  shows "\<exists>p'. updateManifest e v p =
                 Inr (p', majorVersionBump, oldScript p npmScriptName \<noteq> Some npmScriptCommand)"
  using assms by (simp add: updateManifest_eq)

lemma updateManifest_thrown:
  assumes "bumpCheck e v p = Inl msg"
  shows "updateManifest e v p = Inl (Thrown msg)"
  using assms by (simp add: updateManifest_eq)

lemma manifestStep_run:
  assumes "readJson e = Some p"
    and "getLatestGeneratorVersion e (emit (ReadJson (packageJsonPath element)) s) = (Inr v, s2)"
    and "updateManifest e v p = Inr (p', majorVersionBump, updatedNpmScript)"
  shows "manifestStep e element s =
           (case writeJson e of
              Some msg \<Rightarrow> Inl (Rejected msg)
            | None \<Rightarrow> Inr (majorVersionBump, updatedNpmScript),
            s2\<lparr>trace := trace s2 @ [WriteJson (packageJsonPath element) p']\<rparr>)"
  using assms
  by (simp add: manifestStep_def updateManifest_def packageJsonPath_def emit_def Let_def
           split: option.splits)

lemma manifestStep_thrown:
  assumes "readJson e = Some p"
    and "getLatestGeneratorVersion e (emit (ReadJson (packageJsonPath element)) s) = (Inr v, s2)"
    and "updateManifest e v p = Inl err"
  shows "manifestStep e element s = (Inl err, s2)"
  using assms
  by (simp add: manifestStep_def updateManifest_def packageJsonPath_def emit_def Let_def)

lemma bumpCheck_again:
  assumes "updateManifest e v p = Inr (p', majorVersionBump, updatedNpmScript)"
  shows "bumpCheck e' v p' =
           (case semver_satisfies e' v (CHR ''^'' # v) of
              Inl msg \<Rightarrow> Inl msg | Inr satisfied \<Rightarrow> Inr (\<not> satisfied))"
proof -
  obtain deps where "devDependencies p' = Some deps"
    "deps generatorPackageName = Some (CHR ''^'' # v)"
    using updateManifest_result [OF assms] by blast
  then show ?thesis
    by (simp add: bumpCheck_def oldDep_def)
qed

lemma updateManifest_again:
  assumes "updateManifest e v p = Inr (p', majorVersionBump, updatedNpmScript)"
    and "semver_satisfies e' v (CHR ''^'' # v) = Inr satisfied"
  shows "updateManifest e' v p' = Inr (p', \<not> satisfied, False)"
proof -
  obtain deps scr where d: "devDependencies p' = Some deps" "scripts p' = Some scr"
    "deps generatorPackageName = Some (CHR ''^'' # v)"
    "deps ''bower'' = (case oldDep p ''bower'' of None \<Rightarrow> Some ''^1.8.0'' | Some b \<Rightarrow> Some b)"
    "scr npmScriptName = Some npmScriptCommand"
    using updateManifest_result [OF assms(1)] by blast
  obtain b where b: "deps ''bower'' = Some b"
    using d(4) by (cases "oldDep p ''bower''") simp_all
  have dd: "deps(generatorPackageName \<mapsto> CHR ''^'' # v) = deps"
    using d(3) by (simp add: map_upd_triv)
  have ss: "scr(npmScriptName \<mapsto> npmScriptCommand) = scr"
    using d(5) by (simp add: map_upd_triv)
  have eq: "p'\<lparr>devDependencies := Some deps, scripts := Some scr\<rparr> = p'"
    using d(1,2) by simp
  have bc: "bumpCheck e' v p' = Inr (\<not> satisfied)"
    using bumpCheck_again [OF assms(1), of e'] assms(2) by simp
  show ?thesis
    using d(1,2,3,5) b dd ss eq bc
    by (simp add: updateManifest_eq [of e' v p'] oldDep_def oldScript_def)
qed

lemma updateManifest_again_thrown:
  assumes "updateManifest e v p = Inr (p', majorVersionBump, updatedNpmScript)"
    and "semver_satisfies e' v (CHR ''^'' # v) = Inl msg"
  shows "updateManifest e' v p' = Inl (Thrown msg)"
  using bumpCheck_again [OF assms(1), of e'] assms(2) by (simp add: updateManifest_thrown)

text \<open>
  C1. For every manifest without an entry for the generator in \<open>devDependencies\<close> (the
  whole object may be absent too) and every version \<open>v\<close> the resolver returns, the
  manifest-update step sets the entry to \<open>^v\<close> and the flag \<open>majorVersionBump\<close> to true;
  the manifest handed to \<open>writeJson\<close> is that updated manifest, and the step returns the
  flag when the write succeeds.
\<close>

theorem missing_generator_entry_pinned_and_bumped:
  assumes "readJson e = Some p"
    and "oldDep p generatorPackageName = None"
    and "getLatestGeneratorVersion e (emit (ReadJson (packageJsonPath element)) s) = (Inr v, s2)"
  shows "\<exists>p' deps updatedNpmScript.
           updateManifest e v p = Inr (p', True, updatedNpmScript) \<and>
           devDependencies p' = Some deps \<and>
           deps generatorPackageName = Some (CHR ''^'' # v) \<and>
           manifestStep e element s =
             (case writeJson e of
                Some msg \<Rightarrow> Inl (Rejected msg)
              | None \<Rightarrow> Inr (True, updatedNpmScript),
              s2\<lparr>trace := trace s2 @ [WriteJson (packageJsonPath element) p']\<rparr>)"
proof -
  have "bumpCheck e v p = Inr True"
    using assms(2) by (simp add: bumpCheck_def)
  then obtain p' updatedNpmScript where
    u: "updateManifest e v p = Inr (p', True, updatedNpmScript)"
    using updateManifest_ok by blast
  obtain deps where d: "devDependencies p' = Some deps"
    "deps generatorPackageName = Some (CHR ''^'' # v)"
    using updateManifest_result [OF u] by blast
  show ?thesis
    using u d manifestStep_run [OF assms(1) assms(3) u] by blast
qed

text \<open>
  C2. For every manifest whose range for the generator admits the resolved version \<open>v\<close>
  (\<open>semver.satisfies\<close> returns true), the flag \<open>majorVersionBump\<close> is false after the
  manifest-update step and the entry is rewritten to \<open>^v\<close> all the same. A second run that
  reads the manifest just written and resolves the same version writes the very same
  manifest again, so the entry is unchanged; should \<open>semver.satisfies\<close> throw in that
  second run, the run ends there and writes nothing, which leaves the entry unchanged too.
\<close>

theorem admitted_range_rewritten_without_bump:
  assumes "readJson e = Some p"
    and "oldDep p generatorPackageName = Some r"
    and "semver_satisfies e v r = Inr True"
    and "getLatestGeneratorVersion e (emit (ReadJson (packageJsonPath element)) s) = (Inr v, s2)"
  shows "\<exists>p' deps updatedNpmScript.
           updateManifest e v p = Inr (p', False, updatedNpmScript) \<and>
           devDependencies p' = Some deps \<and>
           deps generatorPackageName = Some (CHR ''^'' # v) \<and>
           manifestStep e element s =
             (case writeJson e of
                Some msg \<Rightarrow> Inl (Rejected msg)
              | None \<Rightarrow> Inr (False, updatedNpmScript),
              s2\<lparr>trace := trace s2 @ [WriteJson (packageJsonPath element) p']\<rparr>) \<and>
           (\<forall>e' element' s' s2'.
              readJson e' = Some p' \<and>
              getLatestGeneratorVersion e' (emit (ReadJson (packageJsonPath element')) s') =
                (Inr v, s2') \<longrightarrow>
              (case semver_satisfies e' v (CHR ''^'' # v) of
                 Inr satisfied \<Rightarrow>
                   updateManifest e' v p' = Inr (p', \<not> satisfied, False) \<and>
                   manifestStep e' element' s' =
                     (case writeJson e' of
                        Some msg \<Rightarrow> Inl (Rejected msg)
                      | None \<Rightarrow> Inr (\<not> satisfied, False),
                      s2'\<lparr>trace := trace s2' @ [WriteJson (packageJsonPath element') p']\<rparr>)
               | Inl msg \<Rightarrow> manifestStep e' element' s' = (Inl (Thrown msg), s2')))"
proof -
  have "bumpCheck e v p = Inr False"
    using assms(2,3) by (simp add: bumpCheck_def)
  then obtain p' updatedNpmScript where
    u: "updateManifest e v p = Inr (p', False, updatedNpmScript)"
    using updateManifest_ok by blast
  obtain deps where d: "devDependencies p' = Some deps"
    "deps generatorPackageName = Some (CHR ''^'' # v)"
    using updateManifest_result [OF u] by blast
  have second:
    "case semver_satisfies e' v (CHR ''^'' # v) of
       Inr satisfied \<Rightarrow>
         updateManifest e' v p' = Inr (p', \<not> satisfied, False) \<and>
         manifestStep e' element' s' =
           (case writeJson e' of
              Some msg \<Rightarrow> Inl (Rejected msg)
            | None \<Rightarrow> Inr (\<not> satisfied, False),
            s2'\<lparr>trace := trace s2' @ [WriteJson (packageJsonPath element') p']\<rparr>)
     | Inl msg \<Rightarrow> manifestStep e' element' s' = (Inl (Thrown msg), s2')"
    if h: "readJson e' = Some p'"
      "getLatestGeneratorVersion e' (emit (ReadJson (packageJsonPath element')) s') = (Inr v, s2')"
    for e' element' s' s2'
  proof (cases "semver_satisfies e' v (CHR ''^'' # v)")
    case (Inl msg)
    then show ?thesis
      using manifestStep_thrown [OF h updateManifest_again_thrown [OF u Inl]] by simp
  next
    case (Inr satisfied)
    then show ?thesis
      using updateManifest_again [OF u Inr]
        manifestStep_run [OF h updateManifest_again [OF u Inr]] by simp
  qed
  show ?thesis
    using u d manifestStep_run [OF assms(1) assms(4) u] second by blast
qed



subsection \<open>The steps of the pass and their order\<close>

lemma classify_eq:
  "classify name fs ut utr cf s =
     (ut \<or> list_ex (suffix ''.d.ts'') fs,
      utr \<or> ''.travis.yml'' \<in> set fs,
      cf @ filter (\<lambda>f. \<not> unexpected f) fs,
      s\<lparr>trace := trace s @ map (unexpectedLog name) (filter unexpected fs)\<rparr>)"
proof (induction fs arbitrary: ut utr cf s)
  case Nil
  then show ?case by (simp add:)
next
  case (Cons f fs)
  have nosuf: "\<not> suffix ''.d.ts'' ''.travis.yml''"
    by (simp add: suffix_to_prefix)
  show ?case
    using nosuf by (auto simp: Cons.IH unexpected_def unexpectedLog_def emit_def)
qed

lemma commitStep_eq:
  assumes "getStatus e = Inr changed"
  shows "commitStep e element majorVersionBump updatedNpmScript s =
     (if list_ex (suffix ''.d.ts'') changed \<or> majorVersionBump \<or> updatedNpmScript \<or>
         ''.travis.yml'' \<in> set changed
      then (case makeCommit e of Some msg \<Rightarrow> Inl (Rejected msg) | None \<Rightarrow> Inr (),
            s\<lparr>trace := trace s @ [GetStatus] @
                 map (unexpectedLog (ghRepo_name element)) (filter unexpected changed) @
                 [MakeCommit (filter (\<lambda>f. \<not> unexpected f) changed) commitMessage]\<rparr>)
      else (Inr (),
            s\<lparr>trace := trace s @ [GetStatus] @
                 map (unexpectedLog (ghRepo_name element)) (filter unexpected changed) @
                 [ConsoleLog (ghRepo_name element @ '': No typings changed.'')]\<rparr>))"
  using assms
  by (auto simp: commitStep_def classify_eq emit_def commitMessage_def Let_def split: option.splits)

lemma manifestStep_missing:
  "readJson e = None \<Longrightarrow>
   manifestStep e element s =
     (Inl (Error (ghRepo_name element @ '': Missing or invalid package.json.'')),
      emit (ReadJson (packageJsonPath element)) s)"
  by (simp add: manifestStep_def packageJsonPath_def Let_def)

text \<open>
  C4. If \<open>readJson\<close> fails (the manifest is absent or is not valid JSON), the pass ends
  with the error \<open>NAME: Missing or invalid package.json.\<close>, where \<open>NAME\<close> is
  the name of the repository, and the only thing it has done is the attempt to read the
  manifest: no read or write of the CI configuration and no child process.
\<close>

theorem missing_manifest_fails_first:
  "readJson e = None \<Longrightarrow>
   typescriptPass e element s =
     (Inl (Error (ghRepo_name element @ '': Missing or invalid package.json.'')),
      s\<lparr>trace := trace s @ [ReadJson (packageJsonPath element)]\<rparr>)"
  by (simp add: typescriptPass_def manifestStep_missing emit_def)

lemma travisStep_absent:
  "\<not> travisExists e \<Longrightarrow>
   travisStep e element s =
     (Inr (), s\<lparr>trace := trace s @ [PathExists (travisYamlPath element),
                 ConsoleLog (ghRepo_name element @ '': Missing .travis.yaml'')]\<rparr>)"
  by (simp add: travisStep_def travisYamlPath_def emit_def Let_def)

lemma deleteLock_eq:
  "deleteLock e element s =
     (if lockExists e then (case removeLock e of Some msg \<Rightarrow> Inl (Rejected msg) | None \<Rightarrow> Inr ())
      else Inr (),
      s\<lparr>trace := trace s @ lockEvents e element\<rparr>)"
  by (simp add: deleteLock_def lockEvents_def packageLockPath_def emit_def Let_def
           split: option.splits)

lemma installStep_eq:
  "installStep e element s =
     (if lockExists e \<and> removeLock e \<noteq> None then
        (Inl (Rejected (the (removeLock e))), s\<lparr>trace := trace s @ lockEvents e element\<rparr>)
      else if npmInstall e \<noteq> None then
        (Inl (Rejected (the (npmInstall e))),
         s\<lparr>trace := trace s @ lockEvents e element @ [npmInstallExec element]\<rparr>)
      else if npmRun e \<noteq> None then
        (Inl (Rejected (the (npmRun e))),
         s\<lparr>trace := trace s @ lockEvents e element @ [npmInstallExec element, npmRunExec element]\<rparr>)
      else
        (Inr (),
         s\<lparr>trace := trace s @ lockEvents e element @ [npmInstallExec element, npmRunExec element]\<rparr>))"
  by (auto simp: installStep_def deleteLock_eq npmInstallExec_def npmRunExec_def emit_def Let_def
           split: option.splits)

lemma getLatestGeneratorVersion_trace:
  "trace (snd (getLatestGeneratorVersion e s)) =
     trace s @ (if latestGeneratorVersion s = None then [npmInfoExec] else [])"
  by (simp add: getLatestGeneratorVersion_def npmInfoExec_def emit_def Let_def
           split: option.splits sum.splits)

lemma manifestStep_trace:
  "\<exists>new. trace (snd (manifestStep e element s)) = trace s @ new \<and>
         (\<forall>p y. WriteFile p y \<notin> set new)"
proof (cases "readJson e")
  case None
  then show ?thesis
    by (simp add: manifestStep_missing emit_def)
next
  case (Some packageJson)
  let ?s1 = "emit (ReadJson (Join (dir element) ''package.json'')) s"
  obtain r s2 where g: "getLatestGeneratorVersion e ?s1 = (r, s2)"
    by (cases "getLatestGeneratorVersion e ?s1")
  have t2: "trace s2 = trace s @ ReadJson (Join (dir element) ''package.json'') #
                (if latestGeneratorVersion s = None then [npmInfoExec] else [])"
    using getLatestGeneratorVersion_trace [of e ?s1] g by (simp add: emit_def)
  have nw: "\<forall>p y. WriteFile p y \<noteq> npmInfoExec"
    by (simp add: npmInfoExec_def)
  show ?thesis
    using Some g t2 nw
    by (auto simp: manifestStep_def Let_def emit_def split: sum.splits option.splits)
qed

lemma installStep_trace:
  "\<exists>rest. trace (snd (installStep e element s)) =
            trace s @ PathExists (packageLockPath element) # rest \<and>
          (\<forall>p y. WriteFile p y \<notin> set rest)"
  by (simp add: installStep_eq lockEvents_def npmInstallExec_def npmRunExec_def)

lemma commitStep_trace:
  "\<exists>new. trace (snd (commitStep e element a b s)) = trace s @ new \<and>
         (\<forall>p y. WriteFile p y \<notin> set new)"
proof (cases "getStatus e")
  case (Inl msg)
  then show ?thesis
    by (simp add: commitStep_def emit_def Let_def)
next
  case (Inr changed)
  show ?thesis
    by (auto simp: commitStep_eq [OF Inr] unexpectedLog_def)
qed

lemma commitStep_status_failed:
  "getStatus e = Inl msg \<Longrightarrow>
   commitStep e element majorVersionBump updatedNpmScript s =
     (Inl (Rejected msg), s\<lparr>trace := trace s @ [GetStatus]\<rparr>)"
  by (simp add: commitStep_def emit_def Let_def)

text \<open>
  C6. If \<open>.travis.yml\<close> does not exist, then after a successful manifest step the pass
  writes no CI file (no \<open>WriteFile\<close> event in the whole run), logs
  \<open>NAME: Missing .travis.yaml\<close> right after the test for the file, and goes on with the
  remaining steps, whose events and result are these: the test for the lock file and its
  removal when it exists, \<open>npm install\<close>, \<open>npm run update-types\<close>, the query of the
  working-tree status, one log line for each unexpected path, and then either the commit of
  the expected paths or the log line \<open>NAME: No typings changed.\<close> The run stops early only
  at a call that fails, with that failure.
\<close>

theorem missing_travis_logged_and_skipped:
  assumes "manifestStep e element s = (Inr (majorVersionBump, updatedNpmScript), s1)"
    and "\<not> travisExists e"
  shows "typescriptPass e element s =
           (case (if lockExists e then removeLock e else None) of
              Some msg \<Rightarrow>
                (Inl (Rejected msg),
                 s1\<lparr>trace := trace s1 @
                      [PathExists (travisYamlPath element),
                       ConsoleLog (ghRepo_name element @ '': Missing .travis.yaml'')] @
                      lockEvents e element\<rparr>)
            | None \<Rightarrow>
           (case npmInstall e of
              Some msg \<Rightarrow>
                (Inl (Rejected msg),
                 s1\<lparr>trace := trace s1 @
                      [PathExists (travisYamlPath element),
                       ConsoleLog (ghRepo_name element @ '': Missing .travis.yaml'')] @
                      lockEvents e element @ [npmInstallExec element]\<rparr>)
            | None \<Rightarrow>
           (case npmRun e of
              Some msg \<Rightarrow>
                (Inl (Rejected msg),
                 s1\<lparr>trace := trace s1 @
                      [PathExists (travisYamlPath element),
                       ConsoleLog (ghRepo_name element @ '': Missing .travis.yaml'')] @
                      lockEvents e element @ [npmInstallExec element, npmRunExec element]\<rparr>)
            | None \<Rightarrow>
           (case getStatus e of
              Inl msg \<Rightarrow>
                (Inl (Rejected msg),
                 s1\<lparr>trace := trace s1 @
                      [PathExists (travisYamlPath element),
                       ConsoleLog (ghRepo_name element @ '': Missing .travis.yaml'')] @
                      lockEvents e element @
                      [npmInstallExec element, npmRunExec element, GetStatus]\<rparr>)
            | Inr changed \<Rightarrow>
                (if list_ex (suffix ''.d.ts'') changed \<or> majorVersionBump \<or> updatedNpmScript \<or>
                    ''.travis.yml'' \<in> set changed
                 then
                   (case makeCommit e of Some msg \<Rightarrow> Inl (Rejected msg) | None \<Rightarrow> Inr (),
                    s1\<lparr>trace := trace s1 @
                         [PathExists (travisYamlPath element),
                          ConsoleLog (ghRepo_name element @ '': Missing .travis.yaml'')] @
                         lockEvents e element @
                         [npmInstallExec element, npmRunExec element, GetStatus] @
                         map (unexpectedLog (ghRepo_name element)) (filter unexpected changed) @
                         [MakeCommit (filter (\<lambda>f. \<not> unexpected f) changed) commitMessage]\<rparr>)
                 else
                   (Inr (),
                    s1\<lparr>trace := trace s1 @
                         [PathExists (travisYamlPath element),
                          ConsoleLog (ghRepo_name element @ '': Missing .travis.yaml'')] @
                         lockEvents e element @
                         [npmInstallExec element, npmRunExec element, GetStatus] @
                         map (unexpectedLog (ghRepo_name element)) (filter unexpected changed) @
                         [ConsoleLog (ghRepo_name element @ '': No typings changed.'')]\<rparr>)))))) \<and>
         (\<exists>before rest.
            trace (snd (typescriptPass e element s)) =
              trace s @ before @
              [PathExists (travisYamlPath element),
               ConsoleLog (ghRepo_name element @ '': Missing .travis.yaml''),
               PathExists (packageLockPath element)] @ rest \<and>
            (\<forall>p y. WriteFile p y \<notin> set (before @ rest)))"
proof -
  let ?s2 = "s1\<lparr>trace := trace s1 @
                [PathExists (travisYamlPath element),
                 ConsoleLog (ghRepo_name element @ '': Missing .travis.yaml'')]\<rparr>"
  have pass: "typescriptPass e element s =
                (case installStep e element ?s2 of
                   (Inl err, s3) \<Rightarrow> (Inl err, s3)
                 | (Inr u, s3) \<Rightarrow> commitStep e element majorVersionBump updatedNpmScript s3)"
    using assms by (simp add: typescriptPass_def travisStep_absent)
  have outcome: "typescriptPass e element s =
           (case (if lockExists e then removeLock e else None) of
              Some msg \<Rightarrow>
                (Inl (Rejected msg),
                 s1\<lparr>trace := trace s1 @
                      [PathExists (travisYamlPath element),
                       ConsoleLog (ghRepo_name element @ '': Missing .travis.yaml'')] @
                      lockEvents e element\<rparr>)
            | None \<Rightarrow>
           (case npmInstall e of
              Some msg \<Rightarrow>
                (Inl (Rejected msg),
                 s1\<lparr>trace := trace s1 @
                      [PathExists (travisYamlPath element),
                       ConsoleLog (ghRepo_name element @ '': Missing .travis.yaml'')] @
                      lockEvents e element @ [npmInstallExec element]\<rparr>)
            | None \<Rightarrow>
           (case npmRun e of
              Some msg \<Rightarrow>
                (Inl (Rejected msg),
                 s1\<lparr>trace := trace s1 @
                      [PathExists (travisYamlPath element),
                       ConsoleLog (ghRepo_name element @ '': Missing .travis.yaml'')] @
                      lockEvents e element @ [npmInstallExec element, npmRunExec element]\<rparr>)
            | None \<Rightarrow>
           (case getStatus e of
              Inl msg \<Rightarrow>
                (Inl (Rejected msg),
                 s1\<lparr>trace := trace s1 @
                      [PathExists (travisYamlPath element),
                       ConsoleLog (ghRepo_name element @ '': Missing .travis.yaml'')] @
                      lockEvents e element @
                      [npmInstallExec element, npmRunExec element, GetStatus]\<rparr>)
            | Inr changed \<Rightarrow>
                (if list_ex (suffix ''.d.ts'') changed \<or> majorVersionBump \<or> updatedNpmScript \<or>
                    ''.travis.yml'' \<in> set changed
                 then
                   (case makeCommit e of Some msg \<Rightarrow> Inl (Rejected msg) | None \<Rightarrow> Inr (),
                    s1\<lparr>trace := trace s1 @
                         [PathExists (travisYamlPath element),
                          ConsoleLog (ghRepo_name element @ '': Missing .travis.yaml'')] @
                         lockEvents e element @
                         [npmInstallExec element, npmRunExec element, GetStatus] @
                         map (unexpectedLog (ghRepo_name element)) (filter unexpected changed) @
                         [MakeCommit (filter (\<lambda>f. \<not> unexpected f) changed) commitMessage]\<rparr>)
                 else
                   (Inr (),
                    s1\<lparr>trace := trace s1 @
                         [PathExists (travisYamlPath element),
                          ConsoleLog (ghRepo_name element @ '': Missing .travis.yaml'')] @
                         lockEvents e element @
                         [npmInstallExec element, npmRunExec element, GetStatus] @
                         map (unexpectedLog (ghRepo_name element)) (filter unexpected changed) @
                         [ConsoleLog (ghRepo_name element @ '': No typings changed.'')]\<rparr>))))))"
  proof (cases "getStatus e")
    case (Inl msg)
    show ?thesis
      unfolding pass
      by (auto simp: installStep_eq commitStep_status_failed [OF Inl] Inl split: option.splits)
  next
    case (Inr changed)
    show ?thesis
      unfolding pass
      by (auto simp: installStep_eq commitStep_eq [OF Inr] Inr split: option.splits)
  qed
  obtain before where b: "trace s1 = trace s @ before" "\<forall>p y. WriteFile p y \<notin> set before"
    using manifestStep_trace [of e element s] assms(1) by auto
  obtain r3 s3 where i: "installStep e element ?s2 = (r3, s3)"
    by (cases "installStep e element ?s2")
  obtain rest3 where r3: "trace s3 = trace ?s2 @ PathExists (packageLockPath element) # rest3"
    "\<forall>p y. WriteFile p y \<notin> set rest3"
    using installStep_trace [of e element ?s2] i by auto
  have nowrite: "\<exists>before rest.
            trace (snd (typescriptPass e element s)) =
              trace s @ before @
              [PathExists (travisYamlPath element),
               ConsoleLog (ghRepo_name element @ '': Missing .travis.yaml''),
               PathExists (packageLockPath element)] @ rest \<and>
            (\<forall>p y. WriteFile p y \<notin> set (before @ rest))"
  proof (cases r3)
    case (Inl err)
    then have "trace (snd (typescriptPass e element s)) =
                 trace s @ before @
                 [PathExists (travisYamlPath element),
                  ConsoleLog (ghRepo_name element @ '': Missing .travis.yaml''),
                  PathExists (packageLockPath element)] @ rest3"
      using pass i r3(1) b(1) by simp
    then show ?thesis
      using b(2) r3(2) by (intro exI [of _ before] exI [of _ rest3]) simp
  next
    case (Inr u)
    obtain new where c: "trace (snd (commitStep e element majorVersionBump updatedNpmScript s3)) =
                           trace s3 @ new" "\<forall>p y. WriteFile p y \<notin> set new"
      using commitStep_trace [of e element majorVersionBump updatedNpmScript s3] by auto
    have "trace (snd (typescriptPass e element s)) =
                 trace s @ before @
                 [PathExists (travisYamlPath element),
                  ConsoleLog (ghRepo_name element @ '': Missing .travis.yaml''),
                  PathExists (packageLockPath element)] @ (rest3 @ new)"
      using pass i Inr r3(1) b(1) c(1) by simp
    then show ?thesis
      using b(2) r3(2) c(2) by (intro exI [of _ before] exI [of _ "rest3 @ new"]) simp
  qed
  show ?thesis
    using outcome nowrite by (rule conjI)
qed

text \<open>
  C8. After the manifest and CI steps the pass tests for the lock file and removes it when it
  exists, then runs \<open>npm install\<close> in the repository directory, then \<open>npm run update-types\<close>
  there, in this order. A failure of the removal, of the install or of the script ends the
  pass with that failure, and nothing after the failing call is done; when all succeed the
  pass continues with the classification of the changed files.
\<close>

theorem install_order_and_failures:
  assumes "manifestStep e element s = (Inr (majorVersionBump, updatedNpmScript), s1)"
    and "travisStep e element s1 = (Inr u, s2)"
  shows "(lockExists e \<longrightarrow>
            lockEvents e element =
              [PathExists (packageLockPath element), Remove (packageLockPath element)]) \<and>
         (lockExists e \<and> removeLock e = Some msg \<longrightarrow>
            typescriptPass e element s =
              (Inl (Rejected msg), s2\<lparr>trace := trace s2 @ lockEvents e element\<rparr>)) \<and>
         ((lockExists e \<longrightarrow> removeLock e = None) \<longrightarrow>
            (npmInstall e = Some msg \<longrightarrow>
               typescriptPass e element s =
                 (Inl (Rejected msg),
                  s2\<lparr>trace := trace s2 @ lockEvents e element @ [npmInstallExec element]\<rparr>)) \<and>
            (npmInstall e = None \<and> npmRun e = Some msg \<longrightarrow>
               typescriptPass e element s =
                 (Inl (Rejected msg),
                  s2\<lparr>trace := trace s2 @ lockEvents e element @
                         [npmInstallExec element, npmRunExec element]\<rparr>)) \<and>
            (npmInstall e = None \<and> npmRun e = None \<longrightarrow>
               typescriptPass e element s =
                 commitStep e element majorVersionBump updatedNpmScript
                   (s2\<lparr>trace := trace s2 @ lockEvents e element @
                          [npmInstallExec element, npmRunExec element]\<rparr>)))"
  using assms by (auto simp: typescriptPass_def installStep_eq lockEvents_def)

text \<open>
  The \<open>UndefinedAccess\<close> branches of the model are dead code: the pass never fails with
  a property access on \<open>undefined\<close>, whatever the manifest and the outside do.
\<close>

lemma resolver_no_UndefinedAccess: "fst (getLatestGeneratorVersion e s) \<noteq> Inl UndefinedAccess"
  by (cases "latestGeneratorVersion s")
     (simp_all add: resolver_fresh resolver_cached split: sum.splits option.splits)

lemma manifestStep_no_UndefinedAccess: "fst (manifestStep e element s) \<noteq> Inl UndefinedAccess"
proof (cases "readJson e")
  case None
  then show ?thesis by (simp add: manifestStep_missing)
next
  case (Some p)
  let ?s1 = "emit (ReadJson (packageJsonPath element)) s"
  obtain r s2 where g: "getLatestGeneratorVersion e ?s1 = (r, s2)"
    by (cases "getLatestGeneratorVersion e ?s1")
  show ?thesis
  proof (cases r)
    case (Inl err)
    then have "err \<noteq> UndefinedAccess"
      using resolver_no_UndefinedAccess [of e ?s1] g by auto
    then show ?thesis
      using Some g Inl by (simp add: manifestStep_def packageJsonPath_def Let_def)
  next
    case (Inr v)
    show ?thesis
    proof (cases "bumpCheck e v p")
      case (Inl msg)
      then show ?thesis
        using manifestStep_thrown [OF Some g [unfolded Inr] updateManifest_thrown] by simp
    next
      case ok: (Inr m)
      then obtain p' where "updateManifest e v p =
               Inr (p', m, oldScript p npmScriptName \<noteq> Some npmScriptCommand)"
        using updateManifest_ok by blast
      then show ?thesis
        using manifestStep_run [OF Some g [unfolded Inr]] by (simp split: option.splits)
    qed
  qed
qed

lemma typescriptPass_no_UndefinedAccess: "fst (typescriptPass e element s) \<noteq> Inl UndefinedAccess"
proof -
  have t: "fst (travisStep e element s1) \<noteq> Inl UndefinedAccess" for s1
    by (simp add: travisStep_def Let_def split: sum.splits option.splits)
  have i: "fst (installStep e element s2) \<noteq> Inl UndefinedAccess" for s2
    by (simp add: installStep_eq)
  have c: "fst (commitStep e element a b s3) \<noteq> Inl UndefinedAccess" for a b s3
  proof (cases "getStatus e")
    case (Inl msg)
    then show ?thesis by (simp add: commitStep_def Let_def)
  next
    case (Inr changed)
    show ?thesis by (simp add: commitStep_eq [OF Inr] split: option.splits)
  qed
  obtain r1 s1 where m: "manifestStep e element s = (r1, s1)"
    by (cases "manifestStep e element s")
  show ?thesis
  proof (cases r1)
    case (Inl err)
    then show ?thesis
      using m manifestStep_no_UndefinedAccess [of e element s] by (simp add: typescriptPass_def)
  next
    case flags: (Inr ab)
    obtain r2 s2 where tr: "travisStep e element s1 = (r2, s2)"
      by (cases "travisStep e element s1")
    show ?thesis
    proof (cases r2)
      case (Inl err)
      then show ?thesis
        using m flags tr t [of s1] by (simp add: typescriptPass_def split: prod.splits)
    next
      case (Inr u)
      obtain r3 s3 where ins: "installStep e element s2 = (r3, s3)"
        by (cases "installStep e element s2")
      show ?thesis
      proof (cases r3)
        case (Inl err)
        then show ?thesis
          using m flags tr Inr ins i [of s2] by (simp add: typescriptPass_def split: prod.splits)
      next
        case install: (Inr u')
        show ?thesis
          using m flags tr Inr ins install c by (simp add: typescriptPass_def split: prod.splits)
      qed
    qed
  qed
qed

subsection \<open>Classification of the changed files\<close>

text \<open>
  C5. When the steps before have succeeded and the status lists exactly \<open>a.d.ts\<close>,
  \<open>.travis.yml\<close> and \<open>package.json\<close> (in any order), the loop ends with
  \<open>updatedTypes\<close> and \<open>updatedTravis\<close> both true and the pass commits the listed files,
  all three. When the status lists exactly \<open>package.json\<close> and neither
  \<open>majorVersionBump\<close> nor \<open>updatedNpmScript\<close> is set, both loop flags stay false, no
  commit is made and the pass logs \<open>NAME: No typings changed.\<close>
\<close>

theorem status_decides_commit:
  assumes "manifestStep e element s = (Inr (majorVersionBump, updatedNpmScript), s1)"
    and "travisStep e element s1 = (Inr u, s2)"
    and "installStep e element s2 = (Inr u', s3)"
    and "getStatus e = Inr changed"
  shows "(set changed = {''a.d.ts'', ''.travis.yml'', ''package.json''} \<longrightarrow>
            classify (ghRepo_name element) changed False False [] (emit GetStatus s3) =
              (True, True, changed, emit GetStatus s3) \<and>
            typescriptPass e element s =
              (case makeCommit e of Some msg \<Rightarrow> Inl (Rejected msg) | None \<Rightarrow> Inr (),
               s3\<lparr>trace := trace s3 @ [GetStatus, MakeCommit changed commitMessage]\<rparr>)) \<and>
         (set changed = {''package.json''} \<and> \<not> majorVersionBump \<and> \<not> updatedNpmScript \<longrightarrow>
            classify (ghRepo_name element) changed False False [] (emit GetStatus s3) =
              (False, False, changed, emit GetStatus s3) \<and>
            typescriptPass e element s =
              (Inr (),
               s3\<lparr>trace := trace s3 @ [GetStatus,
                      ConsoleLog (ghRepo_name element @ '': No typings changed.'')]\<rparr>))"
proof -
  have pass: "typescriptPass e element s =
                commitStep e element majorVersionBump updatedNpmScript s3"
    using assms(1-3) by (simp add: typescriptPass_def)
  have three: "\<not> unexpected ''a.d.ts''" "\<not> unexpected ''.travis.yml''"
    "\<not> unexpected ''package.json''" "suffix ''.d.ts'' ''a.d.ts''"
    "\<not> suffix ''.d.ts'' ''package.json''"
    by (simp_all add: unexpected_def suffix_to_prefix)
  have A: "classify (ghRepo_name element) changed False False [] (emit GetStatus s3) =
              (True, True, changed, emit GetStatus s3) \<and>
           commitStep e element majorVersionBump updatedNpmScript s3 =
              (case makeCommit e of Some msg \<Rightarrow> Inl (Rejected msg) | None \<Rightarrow> Inr (),
               s3\<lparr>trace := trace s3 @ [GetStatus, MakeCommit changed commitMessage]\<rparr>)"
    if h: "set changed = {''a.d.ts'', ''.travis.yml'', ''package.json''}"
  proof -
    have all: "\<forall>f \<in> set changed. \<not> unexpected f"
      using h three by auto
    then have f1: "filter (\<lambda>f. \<not> unexpected f) changed = changed" "filter unexpected changed = []"
      by (simp_all add: filter_empty_conv)
    have f2: "list_ex (suffix ''.d.ts'') changed"
      using h three(4) by (auto simp: list_ex_iff)
    have f3: "''.travis.yml'' \<in> set changed"
      using h by simp
    show ?thesis
      using f1 f2 f3 by (simp add: classify_eq commitStep_eq [OF assms(4)])
  qed
  have B: "classify (ghRepo_name element) changed False False [] (emit GetStatus s3) =
              (False, False, changed, emit GetStatus s3) \<and>
           commitStep e element majorVersionBump updatedNpmScript s3 =
              (Inr (),
               s3\<lparr>trace := trace s3 @ [GetStatus,
                      ConsoleLog (ghRepo_name element @ '': No typings changed.'')]\<rparr>)"
    if h: "set changed = {''package.json''}" and nf: "\<not> majorVersionBump" "\<not> updatedNpmScript"
  proof -
    have all: "\<forall>f \<in> set changed. \<not> unexpected f"
      using h three by auto
    then have f1: "filter (\<lambda>f. \<not> unexpected f) changed = changed" "filter unexpected changed = []"
      by (simp_all add: filter_empty_conv)
    have f2: "\<not> list_ex (suffix ''.d.ts'') changed"
      using h three(5) by (auto simp: list_ex_iff)
    have f3: "''.travis.yml'' \<notin> set changed"
      using h by simp
    show ?thesis
      using f1 f2 f3 nf by (simp add: classify_eq commitStep_eq [OF assms(4)])
  qed
  show ?thesis
    using A B pass by simp
qed

text \<open>
  C7. For every changed path that does not end in \<open>.d.ts\<close> and is none of
  \<open>.travis.yml\<close>, \<open>package.json\<close> and \<open>package-lock.json\<close>, the pass does not fail (it
  ends normally unless the commit itself is rejected), logs
  \<open>NAME: Unexpected changed file: PATH\<close>, and leaves the path out of the commit:
  the files of a commit are exactly the changed paths that are not unexpected.
\<close>

theorem unexpected_files_logged_and_excluded:
  assumes "manifestStep e element s = (Inr (majorVersionBump, updatedNpmScript), s1)"
    and "travisStep e element s1 = (Inr u, s2)"
    and "installStep e element s2 = (Inr u', s3)"
    and "getStatus e = Inr changed"
    and "typescriptPass e element s = (r, s')"
  shows "(r = Inr () \<or> (\<exists>msg. makeCommit e = Some msg \<and> r = Inl (Rejected msg))) \<and>
         (\<exists>new. trace s' = trace s3 @ new \<and>
            (\<forall>f \<in> set changed. unexpected f \<longrightarrow>
               ConsoleLog (ghRepo_name element @ '': Unexpected changed file: '' @ f) \<in> set new \<and>
               (\<forall>files msg. MakeCommit files msg \<in> set new \<longrightarrow> f \<notin> set files)) \<and>
            (\<forall>files msg. MakeCommit files msg \<in> set new \<longrightarrow>
               files = filter (\<lambda>f. \<not> unexpected f) changed))"
proof -
  let ?logs = "map (unexpectedLog (ghRepo_name element)) (filter unexpected changed)"
  let ?c = "list_ex (suffix ''.d.ts'') changed \<or> majorVersionBump \<or> updatedNpmScript \<or>
            ''.travis.yml'' \<in> set changed"
  let ?last = "if ?c then MakeCommit (filter (\<lambda>f. \<not> unexpected f) changed) commitMessage
               else ConsoleLog (ghRepo_name element @ '': No typings changed.'')"
  let ?new = "[GetStatus] @ ?logs @ [?last]"
  have pass: "commitStep e element majorVersionBump updatedNpmScript s3 = (r, s')"
    using assms(1-3,5) by (simp add: typescriptPass_def)
  have r: "r = (if ?c then (case makeCommit e of Some msg \<Rightarrow> Inl (Rejected msg) | None \<Rightarrow> Inr ())
                else Inr ())"
    and t: "trace s' = trace s3 @ ?new"
    using pass by (auto simp: commitStep_eq [OF assms(4)] split: if_splits)
  have res: "r = Inr () \<or> (\<exists>msg. makeCommit e = Some msg \<and> r = Inl (Rejected msg))"
    using r by (auto split: option.splits)
  have logged: "ConsoleLog (ghRepo_name element @ '': Unexpected changed file: '' @ f) \<in> set ?new"
    if "f \<in> set changed" "unexpected f" for f
    using that by (auto simp: unexpectedLog_def)
  have commits: "files = filter (\<lambda>f. \<not> unexpected f) changed"
    if "MakeCommit files msg \<in> set ?new" for files msg
    using that by (auto simp: unexpectedLog_def split: if_splits)
  have excluded: "f \<notin> set files"
    if "unexpected f" "MakeCommit files msg \<in> set ?new" for f files msg
    using commits [OF that(2)] that(1) by simp
  show ?thesis
    using res t logged commits excluded by blast
qed

section \<open>The example runs\<close>

text \<open>
  Each theorem above is applied here to one of the example runs; the hypotheses are
  discharged by evaluating the steps on the example.
\<close>

lemma env1_fields:
  "readJson env1 = Some \<lparr>devDependencies = None, scripts = None\<rparr>"
  "writeJson env1 = None" "\<not> travisExists env1" "lockExists env1" "removeLock env1 = None"
  "npmInstall env1 = None" "npmRun env1 = None" "makeCommit env1 = None"
  "getStatus env1 = Inr [''a.d.ts'', ''.travis.yml'', ''package.json'']"
  by (simp_all add: env1_def)

lemma env2_fields:
  "readJson env2 = Some manifest2"
  "writeJson env2 = None" "\<not> travisExists env2" "lockExists env2" "removeLock env2 = None"
  "npmInstall env2 = None" "npmRun env2 = None" "makeCommit env2 = None"
  "getStatus env2 = Inr [''package.json'']"
  "semver_satisfies env2 ''1.2.3'' ''^1.0.0'' = Inr True"
  by (simp_all add: env2_def env1_def)

lemma resolve_env2:
  "latestGeneratorVersion s = None \<Longrightarrow>
   getLatestGeneratorVersion env2 s =
     (Inr ''1.2.3'', s\<lparr>latestGeneratorVersion := Some ''1.2.3'', trace := trace s @ [npmInfoExec]\<rparr>)"
  by (simp add: resolver_fresh env2_def env1_def match_stdout1 del: match_latest.simps)

lemma state0_unset: "latestGeneratorVersion (emit ev state0) = None"
  by (simp add: state0_def emit_def)

lemma manifestStep_ok:
  assumes "readJson e = Some p"
    and "getLatestGeneratorVersion e (emit (ReadJson (packageJsonPath element)) s) = (Inr v, s2)"
    and "writeJson e = None"
    and "bumpCheck e v p = Inr majorVersionBump"
  shows "\<exists>s1. manifestStep e element s =
           (Inr (majorVersionBump, oldScript p npmScriptName \<noteq> Some npmScriptCommand), s1)"
proof -
  obtain p' where "updateManifest e v p =
           Inr (p', majorVersionBump, oldScript p npmScriptName \<noteq> Some npmScriptCommand)"
    using updateManifest_ok [OF assms(4)] by blast
  then show ?thesis
    using manifestStep_run [OF assms(1,2)] assms(3) by simp
qed

lemma bump_absent: "bumpCheck e v \<lparr>devDependencies = None, scripts = None\<rparr> = Inr True"
  by (simp add: bumpCheck_def oldDep_def)

lemma bump_manifest2: "bumpCheck env2 ''1.2.3'' manifest2 = Inr False"
  by (simp add: bumpCheck_def oldDep_def manifest2_def names_differ env2_def env1_def)

lemma manifest_env1: "\<exists>s1. manifestStep env1 element1 state0 = (Inr (True, True), s1)"
  using manifestStep_ok [OF env1_fields(1) resolve_env1 [OF state0_unset] env1_fields(2)
      bump_absent]
  by (simp add: oldScript_def)

lemma manifest_env2: "\<exists>s1. manifestStep env2 element1 state0 = (Inr (False, False), s1)"
  using manifestStep_ok [OF env2_fields(1) resolve_env2 [OF state0_unset] env2_fields(2)
      bump_manifest2]
  by (simp add: oldScript_def manifest2_def)

lemma travis_env1:
  "travisStep env1 element1 s =
     (Inr (), s\<lparr>trace := trace s @ [PathExists (travisYamlPath element1),
                 ConsoleLog (ghRepo_name element1 @ '': Missing .travis.yaml'')]\<rparr>)"
  by (rule travisStep_absent [OF env1_fields(3)])

lemma travis_env2:
  "travisStep env2 element1 s =
     (Inr (), s\<lparr>trace := trace s @ [PathExists (travisYamlPath element1),
                 ConsoleLog (ghRepo_name element1 @ '': Missing .travis.yaml'')]\<rparr>)"
  by (rule travisStep_absent [OF env2_fields(3)])

lemma install_env1:
  "installStep env1 element1 s =
     (Inr (), s\<lparr>trace := trace s @ lockEvents env1 element1 @
                 [npmInstallExec element1, npmRunExec element1]\<rparr>)"
  by (simp add: installStep_eq env1_fields)

lemma install_env2:
  "installStep env2 element1 s =
     (Inr (), s\<lparr>trace := trace s @ lockEvents env2 element1 @
                 [npmInstallExec element1, npmRunExec element1]\<rparr>)"
  by (simp add: installStep_eq env2_fields)

text \<open>C1 on the empty manifest of \<open>env1\<close>, with 1.2.3 resolved.\<close>

theorem missing_generator_entry_pinned_and_bumped_witness:
  "\<exists>p' deps updatedNpmScript.
     fst (manifestStep env1 element1 state0) = Inr (True, updatedNpmScript) \<and>
     last (trace (snd (manifestStep env1 element1 state0))) =
       WriteJson (packageJsonPath element1) p' \<and>
     devDependencies p' = Some deps \<and> deps generatorPackageName = Some ''^1.2.3''"
proof -
  let ?p = "\<lparr>devDependencies = None, scripts = None\<rparr>"
  let ?s1 = "emit (ReadJson (packageJsonPath element1)) state0"
  let ?s2 = "?s1\<lparr>latestGeneratorVersion := Some ''1.2.3'', trace := trace ?s1 @ [npmInfoExec]\<rparr>"
  have h1: "readJson env1 = Some ?p"
    by (rule env1_fields)
  have h2: "oldDep ?p generatorPackageName = None"
    by (simp add: oldDep_def)
  have h3: "getLatestGeneratorVersion env1 ?s1 = (Inr ''1.2.3'', ?s2)"
    by (rule resolve_env1 [OF state0_unset])
  from missing_generator_entry_pinned_and_bumped [OF h1 h2 h3]
  obtain p' deps updatedNpmScript where
    "devDependencies p' = Some deps" "deps generatorPackageName = Some ''^1.2.3''"
    "manifestStep env1 element1 state0 =
       (Inr (True, updatedNpmScript),
        ?s2\<lparr>trace := trace ?s2 @ [WriteJson (packageJsonPath element1) p']\<rparr>)"
    by (auto simp: env1_fields)
  then show ?thesis
    by (intro exI [of _ p'] exI [of _ deps] exI [of _ updatedNpmScript]) simp
qed

text \<open>
  C2 on \<open>manifest2\<close>, whose range \<open>^1.0.0\<close> admits 1.2.3; the second run starts from the
  state the first one left (the version is cached) and reads the manifest just written.
\<close>

theorem admitted_range_rewritten_without_bump_witness:
  "\<exists>p' deps updatedNpmScript.
     fst (manifestStep env2 element1 state0) = Inr (False, updatedNpmScript) \<and>
     last (trace (snd (manifestStep env2 element1 state0))) =
       WriteJson (packageJsonPath element1) p' \<and>
     devDependencies p' = Some deps \<and> deps generatorPackageName = Some ''^1.2.3'' \<and>
     fst (manifestStep (env2\<lparr>readJson := Some p'\<rparr>) element1
            (snd (manifestStep env2 element1 state0))) = Inr (False, False) \<and>
     last (trace (snd (manifestStep (env2\<lparr>readJson := Some p'\<rparr>) element1
                         (snd (manifestStep env2 element1 state0))))) =
       WriteJson (packageJsonPath element1) p'"
proof -
  let ?s1 = "emit (ReadJson (packageJsonPath element1)) state0"
  let ?s2 = "?s1\<lparr>latestGeneratorVersion := Some ''1.2.3'', trace := trace ?s1 @ [npmInfoExec]\<rparr>"
  have h2: "oldDep manifest2 generatorPackageName = Some ''^1.0.0''"
    by (simp add: oldDep_def manifest2_def names_differ)
  have h4: "getLatestGeneratorVersion env2 ?s1 = (Inr ''1.2.3'', ?s2)"
    by (rule resolve_env2 [OF state0_unset])
  from admitted_range_rewritten_without_bump [OF env2_fields(1) h2 env2_fields(10) h4]
  obtain p' deps updatedNpmScript where
    d: "devDependencies p' = Some deps" "deps generatorPackageName = Some ''^1.2.3''"
    and first: "manifestStep env2 element1 state0 =
       (Inr (False, updatedNpmScript),
        ?s2\<lparr>trace := trace ?s2 @ [WriteJson (packageJsonPath element1) p']\<rparr>)"
    and again: "\<And>e' element' s' s2'.
       readJson e' = Some p' \<Longrightarrow>
       getLatestGeneratorVersion e' (emit (ReadJson (packageJsonPath element')) s') =
         (Inr ''1.2.3'', s2') \<Longrightarrow>
       (case semver_satisfies e' ''1.2.3'' ''^1.2.3'' of
          Inr satisfied \<Rightarrow>
            updateManifest e' ''1.2.3'' p' = Inr (p', \<not> satisfied, False) \<and>
            manifestStep e' element' s' =
              (case writeJson e' of
                 Some msg \<Rightarrow> Inl (Rejected msg)
               | None \<Rightarrow> Inr (\<not> satisfied, False),
               s2'\<lparr>trace := trace s2' @ [WriteJson (packageJsonPath element') p']\<rparr>)
        | Inl msg \<Rightarrow> manifestStep e' element' s' = (Inl (Thrown msg), s2'))"
    by (auto simp: env2_fields)
  let ?e' = "env2\<lparr>readJson := Some p'\<rparr>"
  let ?t = "?s2\<lparr>trace := trace ?s2 @ [WriteJson (packageJsonPath element1) p']\<rparr>"
  let ?t1 = "emit (ReadJson (packageJsonPath element1)) ?t"
  have r: "readJson ?e' = Some p'"
    by simp
  have g: "getLatestGeneratorVersion ?e' ?t1 = (Inr ''1.2.3'', ?t1)"
    by (rule resolver_cached) (simp add: emit_def)
  have sat: "semver_satisfies ?e' ''1.2.3'' ''^1.2.3'' = Inr True" "writeJson ?e' = None"
    by (simp_all add: env2_def env1_def)
  have second: "manifestStep ?e' element1 ?t =
                  (Inr (False, False),
                   ?t1\<lparr>trace := trace ?t1 @ [WriteJson (packageJsonPath element1) p']\<rparr>)"
    using again [OF r g] sat by simp
  show ?thesis
    using d first second
    by (intro exI [of _ p'] exI [of _ deps] exI [of _ updatedNpmScript]) simp
qed

text \<open>C3 on a list that holds an older form of the check, and on a second run of the CI step.\<close>

theorem updateTravis_twice_one_copy_witness:
  "updateTravis
     \<lparr>before_script = Some [''sudo apt-get update'', ''npm run update-types && git diff'',
                            ''npm install'']\<rparr> =
     \<lparr>before_script = Some [''sudo apt-get update'', ''npm install'', travisCommand]\<rparr> \<and>
   updateTravis (updateTravis
     \<lparr>before_script = Some [''sudo apt-get update'', ''npm run update-types && git diff'',
                            ''npm install'']\<rparr>) =
     \<lparr>before_script = Some [''sudo apt-get update'', ''npm install'', travisCommand]\<rparr> \<and>
   count_list [''sudo apt-get update'', ''npm install'', travisCommand] travisCommand = 1 \<and>
   last (trace (snd (travisStep
     (env1\<lparr>travisExists := True,
           loadTravis := Inr \<lparr>before_script =
             Some [''sudo apt-get update'', ''npm install'', travisCommand]\<rparr>\<rparr>)
     element1 state0))) =
     WriteFile (travisYamlPath element1)
       \<lparr>before_script = Some [''sudo apt-get update'', ''npm install'', travisCommand]\<rparr>"
proof -
  let ?y = "\<lparr>before_script = Some [''sudo apt-get update'', ''npm run update-types && git diff'',
                                   ''npm install'']\<rparr>"
  let ?z = "\<lparr>before_script = Some [''sudo apt-get update'', ''npm install'', travisCommand]\<rparr>"
  let ?e = "env1\<lparr>travisExists := True, loadTravis := Inr ?y\<rparr>"
  let ?e' = "env1\<lparr>travisExists := True, loadTravis := Inr ?z\<rparr>"
  have m: "sublist ''update-types'' ''npm run update-types && git diff''"
    using sublist_appendI [of "''update-types''" "''npm run ''" "'' && git diff''"] by simp
  have n: "\<not> sublist ''update-types'' ''npm install''"
    "\<not> sublist ''update-types'' ''sudo apt-get update''"
    by (simp_all add: sublist_Cons_right)
  note T = updateTravis_twice_one_copy [of ?y ?e ?e' element1 state0 state0]
  have one: "updateTravis ?y = ?z"
    using T [THEN conjunct1] m n by simp
  have two: "updateTravis (updateTravis ?y) = ?z"
    using T [THEN conjunct2, THEN conjunct1] m n by simp
  have "\<exists>ls. before_script (updateTravis (updateTravis ?y)) = Some ls \<and>
             count_list ls travisCommand = 1"
    using T [THEN conjunct2, THEN conjunct2, THEN conjunct1] by blast
  then have cnt:
    "count_list [''sudo apt-get update'', ''npm install'', travisCommand] travisCommand = 1"
    unfolding two by simp
  have h: "travisExists ?e \<and> loadTravis ?e = Inr ?y \<and>
           travisExists ?e' \<and> loadTravis ?e' = Inr (updateTravis ?y)"
    unfolding one by simp
  have "snd (travisStep ?e' element1 state0) =
          state0\<lparr>trace := trace state0 @
             [PathExists (travisYamlPath element1), ReadFile (travisYamlPath element1),
              WriteFile (travisYamlPath element1) (updateTravis ?y)]\<rparr>"
    using T [THEN conjunct2, THEN conjunct2, THEN conjunct2, THEN conjunct2, THEN conjunct2] h
    by blast
  then have second: "last (trace (snd (travisStep ?e' element1 state0))) =
                  WriteFile (travisYamlPath element1) ?z"
    unfolding one by simp
  show ?thesis
    using one two cnt second by simp
qed

text \<open>C4 on \<open>env1\<close> with the manifest missing.\<close>

theorem missing_manifest_fails_first_witness:
  "typescriptPass (env1\<lparr>readJson := None\<rparr>) element1 state0 =
     (Inl (Error ''paper-button: Missing or invalid package.json.''),
      \<lparr>latestGeneratorVersion = None,
       trace = [ReadJson (Join ''/work/paper-button'' ''package.json'')]\<rparr>)"
  using missing_manifest_fails_first [of "env1\<lparr>readJson := None\<rparr>" element1 state0]
  by (simp add: element1_def state0_def packageJsonPath_def)

text \<open>C5: the run of \<open>env1\<close> commits the three files, the run of \<open>env2\<close> commits nothing.\<close>

theorem status_decides_commit_witness:
  "fst (typescriptPass env1 element1 state0) = Inr () \<and>
   last (trace (snd (typescriptPass env1 element1 state0))) =
     MakeCommit [''a.d.ts'', ''.travis.yml'', ''package.json''] commitMessage \<and>
   fst (typescriptPass env2 element1 state0) = Inr () \<and>
   last (trace (snd (typescriptPass env2 element1 state0))) =
     ConsoleLog ''paper-button: No typings changed.''"
proof -
  obtain s1 where m1: "manifestStep env1 element1 state0 = (Inr (True, True), s1)"
    using manifest_env1 by blast
  have set1: "set [''a.d.ts'', ''.travis.yml'', ''package.json''] =
                {''a.d.ts'', ''.travis.yml'', ''package.json''}"
    by simp
  have run1: "fst (typescriptPass env1 element1 state0) = Inr () \<and>
              last (trace (snd (typescriptPass env1 element1 state0))) =
                MakeCommit [''a.d.ts'', ''.travis.yml'', ''package.json''] commitMessage"
    using status_decides_commit [OF m1 travis_env1 install_env1 env1_fields(9)] set1
    by (simp add: env1_fields)
  obtain t1 where m2: "manifestStep env2 element1 state0 = (Inr (False, False), t1)"
    using manifest_env2 by blast
  have run2: "fst (typescriptPass env2 element1 state0) = Inr () \<and>
              last (trace (snd (typescriptPass env2 element1 state0))) =
                ConsoleLog ''paper-button: No typings changed.''"
    using status_decides_commit [OF m2 travis_env2 install_env2 env2_fields(9)]
    by (simp add: element1_def)
  show ?thesis
    using run1 run2 by simp
qed

text \<open>C6: \<open>env1\<close> has no \<open>.travis.yml\<close>.\<close>

theorem missing_travis_logged_and_skipped_witness:
  "fst (typescriptPass env1 element1 state0) = Inr () \<and>
   suffix
     [PathExists (travisYamlPath element1), ConsoleLog ''paper-button: Missing .travis.yaml'',
      PathExists (packageLockPath element1), Remove (packageLockPath element1),
      npmInstallExec element1, npmRunExec element1, GetStatus,
      MakeCommit [''a.d.ts'', ''.travis.yml'', ''package.json''] commitMessage]
     (trace (snd (typescriptPass env1 element1 state0))) \<and>
   (\<forall>p y. WriteFile p y \<notin> set (trace (snd (typescriptPass env1 element1 state0))))"
proof -
  obtain s1 where m1: "manifestStep env1 element1 state0 = (Inr (True, True), s1)"
    using manifest_env1 by blast
  note T = missing_travis_logged_and_skipped [OF m1 env1_fields(3)]
  have u: "\<not> unexpected ''a.d.ts''" "\<not> unexpected ''.travis.yml''"
    "\<not> unexpected ''package.json''"
    by (simp_all add: unexpected_def suffix_to_prefix)
  have run: "typescriptPass env1 element1 state0 =
     (Inr (),
      s1\<lparr>trace := trace s1 @
           [PathExists (travisYamlPath element1),
            ConsoleLog (ghRepo_name element1 @ '': Missing .travis.yaml''),
            PathExists (packageLockPath element1), Remove (packageLockPath element1),
            npmInstallExec element1, npmRunExec element1, GetStatus,
            MakeCommit [''a.d.ts'', ''.travis.yml'', ''package.json''] commitMessage]\<rparr>)"
    using T [THEN conjunct1] u by (simp add: env1_fields lockEvents_def)
  from T [THEN conjunct2]
  obtain before rest where
    t: "trace (snd (typescriptPass env1 element1 state0)) =
          trace state0 @ before @
          [PathExists (travisYamlPath element1),
           ConsoleLog (ghRepo_name element1 @ '': Missing .travis.yaml''),
           PathExists (packageLockPath element1)] @ rest"
    and n: "\<forall>p y. WriteFile p y \<notin> set (before @ rest)"
    by blast
  have nw: "\<forall>p y. WriteFile p y \<notin> set (trace (snd (typescriptPass env1 element1 state0)))"
    using t n by (simp add: state0_def)
  have f: "fst (typescriptPass env1 element1 state0) = Inr ()"
    by (simp add: run)
  have sf: "suffix
     [PathExists (travisYamlPath element1), ConsoleLog ''paper-button: Missing .travis.yaml'',
      PathExists (packageLockPath element1), Remove (packageLockPath element1),
      npmInstallExec element1, npmRunExec element1, GetStatus,
      MakeCommit [''a.d.ts'', ''.travis.yml'', ''package.json''] commitMessage]
     (trace (snd (typescriptPass env1 element1 state0)))"
  proof -
    have name: "ghRepo_name element1 = ''paper-button''"
      by (simp add: element1_def)
    show ?thesis
      by (simp add: run name suffix_to_prefix)
  qed
  show ?thesis
    using f sf nw by blast
qed

text \<open>C7 on a status with a declaration file and a README.\<close>

theorem unexpected_files_logged_and_excluded_witness:
  "fst (typescriptPass (env1\<lparr>getStatus := Inr [''a.d.ts'', ''README.md'']\<rparr>) element1 state0) =
     Inr () \<and>
   unexpected ''README.md'' \<and>
   ConsoleLog ''paper-button: Unexpected changed file: README.md'' \<in>
     set (trace (snd (typescriptPass (env1\<lparr>getStatus := Inr [''a.d.ts'', ''README.md'']\<rparr>)
                        element1 state0))) \<and>
   last (trace (snd (typescriptPass (env1\<lparr>getStatus := Inr [''a.d.ts'', ''README.md'']\<rparr>)
                       element1 state0))) =
     MakeCommit [''a.d.ts''] commitMessage"
proof -
  let ?e = "env1\<lparr>getStatus := Inr [''a.d.ts'', ''README.md'']\<rparr>"
  have fe: "readJson ?e = Some \<lparr>devDependencies = None, scripts = None\<rparr>" "writeJson ?e = None"
    "\<not> travisExists ?e" "lockExists ?e" "removeLock ?e = None"
    "npmInstall ?e = None" "npmRun ?e = None" "makeCommit ?e = None"
    "getStatus ?e = Inr [''a.d.ts'', ''README.md'']"
    by (simp_all add: env1_def)
  have ge: "getLatestGeneratorVersion ?e s =
              (Inr ''1.2.3'',
               s\<lparr>latestGeneratorVersion := Some ''1.2.3'', trace := trace s @ [npmInfoExec]\<rparr>)"
    if "latestGeneratorVersion s = None" for s
    using that by (simp add: resolver_fresh env1_def match_stdout1 del: match_latest.simps)
  obtain a b s1 where me: "manifestStep ?e element1 state0 = (Inr (a, b), s1)"
    using manifestStep_ok [OF fe(1) ge [OF state0_unset] fe(2) bump_absent] by blast
  have ie: "installStep ?e element1 s =
              (Inr (), s\<lparr>trace := trace s @ lockEvents ?e element1 @
                 [npmInstallExec element1, npmRunExec element1]\<rparr>)" for s
    by (simp add: installStep_eq fe)
  have u: "unexpected ''README.md''" "\<not> unexpected ''a.d.ts''"
    by (simp_all add: unexpected_def suffix_to_prefix)
  obtain r s' where p: "typescriptPass ?e element1 state0 = (r, s')"
    by (cases "typescriptPass ?e element1 state0")
  from unexpected_files_logged_and_excluded [OF me travisStep_absent [OF fe(3)] ie fe(9) p]
  obtain new where
    r: "r = Inr ()"
    and t: "trace s' = trace (snd (installStep ?e element1 (snd (travisStep ?e element1 s1)))) @ new"
    and l: "ConsoleLog (ghRepo_name element1 @ '': Unexpected changed file: '' @ ''README.md'')
              \<in> set new"
    using u(1) by (auto simp: fe ie travisStep_absent [OF fe(3)])
  have full: "typescriptPass ?e element1 state0 =
     (Inr (),
      s1\<lparr>trace := trace s1 @
           [PathExists (travisYamlPath element1),
            ConsoleLog (ghRepo_name element1 @ '': Missing .travis.yaml''),
            PathExists (packageLockPath element1), Remove (packageLockPath element1),
            npmInstallExec element1, npmRunExec element1, GetStatus,
            unexpectedLog (ghRepo_name element1) ''README.md'',
            MakeCommit [''a.d.ts''] commitMessage]\<rparr>)"
    using me u
    by (simp add: typescriptPass_def travisStep_absent [OF fe(3)] ie commitStep_eq [OF fe(9)] fe
          suffix_to_prefix lockEvents_def)
  have c: "last (trace s') = MakeCommit [''a.d.ts''] commitMessage"
    using p full by auto
  show ?thesis
    using p r t l c u(1) by (simp add: element1_def)
qed

text \<open>C8 on two runs, one with a failing install and one with a failing script.\<close>

theorem install_order_and_failures_witness:
  "suffix [PathExists (packageLockPath element1), Remove (packageLockPath element1),
           npmInstallExec element1]
     (trace (snd (typescriptPass (env1\<lparr>npmInstall := Some ''exit code 1''\<rparr>) element1 state0))) \<and>
   fst (typescriptPass (env1\<lparr>npmInstall := Some ''exit code 1''\<rparr>) element1 state0) =
     Inl (Rejected ''exit code 1'') \<and>
   suffix [PathExists (packageLockPath element1), Remove (packageLockPath element1),
           npmInstallExec element1, npmRunExec element1]
     (trace (snd (typescriptPass (env1\<lparr>npmRun := Some ''exit code 2''\<rparr>) element1 state0))) \<and>
   fst (typescriptPass (env1\<lparr>npmRun := Some ''exit code 2''\<rparr>) element1 state0) =
     Inl (Rejected ''exit code 2'')"
proof -
  let ?e = "env1\<lparr>npmInstall := Some ''exit code 1''\<rparr>"
  let ?f = "env1\<lparr>npmRun := Some ''exit code 2''\<rparr>"
  have fe: "readJson ?e = Some \<lparr>devDependencies = None, scripts = None\<rparr>" "writeJson ?e = None"
    "\<not> travisExists ?e" "lockExists ?e" "removeLock ?e = None"
    "npmInstall ?e = Some ''exit code 1''"
    by (simp_all add: env1_def)
  have ff: "readJson ?f = Some \<lparr>devDependencies = None, scripts = None\<rparr>" "writeJson ?f = None"
    "\<not> travisExists ?f" "lockExists ?f" "removeLock ?f = None"
    "npmInstall ?f = None" "npmRun ?f = Some ''exit code 2''"
    by (simp_all add: env1_def)
  have ge: "getLatestGeneratorVersion ?e s =
              (Inr ''1.2.3'',
               s\<lparr>latestGeneratorVersion := Some ''1.2.3'', trace := trace s @ [npmInfoExec]\<rparr>)"
    if "latestGeneratorVersion s = None" for s
    using that by (simp add: resolver_fresh env1_def match_stdout1 del: match_latest.simps)
  have gf: "getLatestGeneratorVersion ?f s =
              (Inr ''1.2.3'',
               s\<lparr>latestGeneratorVersion := Some ''1.2.3'', trace := trace s @ [npmInfoExec]\<rparr>)"
    if "latestGeneratorVersion s = None" for s
    using that by (simp add: resolver_fresh env1_def match_stdout1 del: match_latest.simps)
  obtain a b s1 where me: "manifestStep ?e element1 state0 = (Inr (a, b), s1)"
    using manifestStep_ok [OF fe(1) ge [OF state0_unset] fe(2) bump_absent] by blast
  obtain c d t1 where mf: "manifestStep ?f element1 state0 = (Inr (c, d), t1)"
    using manifestStep_ok [OF ff(1) gf [OF state0_unset] ff(2) bump_absent] by blast
  have le: "lockEvents ?e element1 =
              [PathExists (packageLockPath element1), Remove (packageLockPath element1)]"
    and lf: "lockEvents ?f element1 =
              [PathExists (packageLockPath element1), Remove (packageLockPath element1)]"
    by (simp_all add: lockEvents_def env1_def)
  have re: "typescriptPass ?e element1 state0 =
              (Inl (Rejected ''exit code 1''),
               s1\<lparr>trace := trace s1 @
                    [PathExists (travisYamlPath element1),
                     ConsoleLog (ghRepo_name element1 @ '': Missing .travis.yaml''),
                     PathExists (packageLockPath element1), Remove (packageLockPath element1),
                     npmInstallExec element1]\<rparr>)"
    using install_order_and_failures [OF me travisStep_absent [OF fe(3)], of "''exit code 1''"]
      fe le by simp
  have rf: "typescriptPass ?f element1 state0 =
              (Inl (Rejected ''exit code 2''),
               t1\<lparr>trace := trace t1 @
                    [PathExists (travisYamlPath element1),
                     ConsoleLog (ghRepo_name element1 @ '': Missing .travis.yaml''),
                     PathExists (packageLockPath element1), Remove (packageLockPath element1),
                     npmInstallExec element1, npmRunExec element1]\<rparr>)"
    using install_order_and_failures [OF mf travisStep_absent [OF ff(3)], of "''exit code 2''"]
      ff lf by simp
  show ?thesis
    by (simp add: re rf suffix_to_prefix)
qed

text \<open>C9 (amended) on calls that fail, succeed and then hit the cache.\<close>

theorem resolver_queries_until_first_success_witness:
  "getLatestGeneratorVersion env1 state0 =
     (Inr ''1.2.3'', \<lparr>latestGeneratorVersion = Some ''1.2.3'', trace = [npmInfoExec]\<rparr>) \<and>
   resolverCalls [env3, env5, env1]
     \<lparr>latestGeneratorVersion = Some ''1.2.3'', trace = [npmInfoExec]\<rparr> =
     ([Inr ''1.2.3'', Inr ''1.2.3'', Inr ''1.2.3''],
      \<lparr>latestGeneratorVersion = Some ''1.2.3'', trace = [npmInfoExec]\<rparr>) \<and>
   getLatestGeneratorVersion env3 state0 =
     (Inl (Error ''Could not find latest version of @polymer/gen-typescript-declarations''),
      \<lparr>latestGeneratorVersion = None, trace = [npmInfoExec]\<rparr>) \<and>
   getLatestGeneratorVersion env5 state0 =
     (Inl (Rejected ''getaddrinfo ENOTFOUND registry.npmjs.org''),
      \<lparr>latestGeneratorVersion = None, trace = [npmInfoExec]\<rparr>) \<and>
   queries (trace (snd (resolverCalls [env3, env5, env1, env3] state0))) = 3"
proof -
  let ?S = "\<lparr>latestGeneratorVersion = Some ''1.2.3'', trace = [npmInfoExec]\<rparr>"
  have c: "latestGeneratorVersion state0 = None"
    by (simp add: state0_def)
  have n3: "npmInfo env3 = Inr ''npm ERR! 404''" and n1: "npmInfo env1 = Inr stdout1"
    and n5: "npmInfo env5 = Inl ''getaddrinfo ENOTFOUND registry.npmjs.org''"
    by (simp_all add: env3_def env5_def env1_def)
  note T1 = resolver_queries_until_first_success
              [where e = env1 and s = state0 and v = "''1.2.3''" and ?s1.0 = ?S
                 and es = "[env3, env5, env1]" and out = stdout1]
  note T3 = resolver_queries_until_first_success
              [where e = env3 and s = state0 and es = "[env3, env5, env1, env3]"
                 and out = "''npm ERR! 404''"]
  note T5 = resolver_queries_until_first_success
              [where e = env5 and s = state0
                 and msg = "''getaddrinfo ENOTFOUND registry.npmjs.org''"]
  have first: "getLatestGeneratorVersion env1 state0 = (Inr ''1.2.3'', ?S)"
    using T1 [THEN conjunct2, THEN conjunct2, THEN conjunct1] c n1
    by (simp add: match_stdout1 state0_def del: match_latest.simps)
  have later: "resolverCalls [env3, env5, env1] ?S =
                 ([Inr ''1.2.3'', Inr ''1.2.3'', Inr ''1.2.3''], ?S)"
    using T1 [THEN conjunct2, THEN conjunct2, THEN conjunct2, THEN conjunct1] first
    by (simp add: numeral_3_eq_3)
  have fail: "getLatestGeneratorVersion env3 state0 =
     (Inl (Error ''Could not find latest version of @polymer/gen-typescript-declarations''),
      \<lparr>latestGeneratorVersion = None, trace = [npmInfoExec]\<rparr>)"
    using T3 [THEN conjunct2, THEN conjunct2, THEN conjunct1] c n3
    by (simp add: match_no_latest state0_def del: match_latest.simps)
  have rejected: "getLatestGeneratorVersion env5 state0 =
     (Inl (Rejected ''getaddrinfo ENOTFOUND registry.npmjs.org''),
      \<lparr>latestGeneratorVersion = None, trace = [npmInfoExec]\<rparr>)"
    using T5 [THEN conjunct2, THEN conjunct1] c n5 by (simp add: state0_def)
  have r5: "getLatestGeneratorVersion env5 s =
     (Inl (Rejected ''getaddrinfo ENOTFOUND registry.npmjs.org''),
      s\<lparr>trace := trace s @ [npmInfoExec]\<rparr>)" if "latestGeneratorVersion s = None" for s
    using that n5 by (simp add: resolver_fresh)
  have run: "fst (resolverCalls [env3, env5, env1, env3] state0) =
     [Inl (Error ''Could not find latest version of @polymer/gen-typescript-declarations''),
      Inl (Rejected ''getaddrinfo ENOTFOUND registry.npmjs.org''),
      Inr ''1.2.3'', Inr ''1.2.3'']"
    by (simp add: resolve_env3 r5 resolve_env1 resolver_cached c generatorPackageName_def)
  have cnt: "queries (trace (snd (resolverCalls [env3, env5, env1, env3] state0))) = 3"
    using T3 [THEN conjunct2, THEN conjunct2, THEN conjunct2, THEN conjunct2, THEN conjunct2]
      c run by (simp add: state0_def queries_def)
  show ?thesis
    using first later fail rejected cnt by simp
qed


end
